theory Spec2Isabelle
  imports Main "HOL-Library.AList" "HOL-Library.Multiset"
begin

section \<open>Python values\<close>

text \<open>
  A Python \<^verbatim>\<open>str\<close> is a sequence of Unicode code points, and \<^verbatim>\<open>len\<close> counts code
  points. A \<^verbatim>\<open>bytes\<close> or \<^verbatim>\<open>bytearray\<close> value is a \<^typ>\<open>string\<close>: a HOL
  \<^typ>\<open>char\<close> is one byte.
\<close>

type_synonym pystr = "nat list"

definition ascii :: "string \<Rightarrow> pystr" where
  "ascii s = map of_char s"

text \<open>
  What \<^verbatim>\<open>json.loads\<close> returns: \<^verbatim>\<open>None\<close>, \<^verbatim>\<open>bool\<close>, \<^verbatim>\<open>int\<close>, \<^verbatim>\<open>str\<close>,
  \<^verbatim>\<open>list\<close> and \<^verbatim>\<open>dict\<close> (keys in insertion order, each key once). Numbers with a
  fraction or an exponent (Python floats) are not part of this data model.
\<close>

datatype json =
    JNull
  | JBool bool
  | JInt int
  | JString pystr
  | JArray "json list"
  | JObject "(pystr \<times> json) list"

datatype message =
    Failed_to_execute pystr json
  | Message string

datatype exn =
    AssertionError
  | AttributeError
  | TypeError
  | KeyError pystr
  | UnicodeEncodeError
  | UnicodeDecodeError
  | JSONDecodeError
  | RecursionError
  | InvalidStateError
  | CancelledError
  | IncompleteReadError string
  | LimitOverrunError nat
  | RuntimeError message
  | TimeoutError pystr
  | ConnectionRefusedError
  | OSError

section \<open>Request.bytes\<close>

text \<open>The decimal text of an integer, as an f-string writes it.\<close>

function str_nat :: "nat \<Rightarrow> pystr" where
  "str_nat n = (if n < 10 then [48 + n] else str_nat (n div 10) @ [48 + n mod 10])"
  by pat_completeness auto
termination
  by (relation "measure id") auto

declare str_nat.simps [simp del]

definition str_int :: "int \<Rightarrow> pystr" where
  "str_int i = (if i < 0 then 45 # str_nat (nat (- i)) else str_nat (nat i))"

text \<open>
  \<^verbatim>\<open>str.encode('utf8')\<close>: one to four bytes per code point; a surrogate
  (U+D800 to U+DFFF) makes the whole call raise \<^verbatim>\<open>UnicodeEncodeError\<close>. A \<^verbatim>\<open>str\<close>
  holds no value from 0x110000 on.
\<close>

definition utf8_char :: "nat \<Rightarrow> exn + string" where
  "utf8_char c =
     (if c < 0x80 then Inr [char_of c]
      else if c < 0x800 then Inr [char_of (0xC0 + c div 0x40), char_of (0x80 + c mod 0x40)]
      else if 0xD800 \<le> c \<and> c < 0xE000 then Inl UnicodeEncodeError
      else if c < 0x10000 then
        Inr [char_of (0xE0 + c div 0x1000), char_of (0x80 + c div 0x40 mod 0x40),
             char_of (0x80 + c mod 0x40)]
      else if c < 0x110000 then
        Inr [char_of (0xF0 + c div 0x40000), char_of (0x80 + c div 0x1000 mod 0x40),
             char_of (0x80 + c div 0x40 mod 0x40), char_of (0x80 + c mod 0x40)]
      else Inl UnicodeEncodeError)"

fun encode :: "pystr \<Rightarrow> exn + string" where
  "encode [] = Inr []"
| "encode (c # cs) =
     (case utf8_char c of
        Inl e \<Rightarrow> Inl e
      | Inr b \<Rightarrow> (case encode cs of Inl e \<Rightarrow> Inl e | Inr bs \<Rightarrow> Inr (b @ bs)))"

datatype future = Pending | Cancelled | Finished

text \<open>
  The dataclass \<^verbatim>\<open>Request\<close>. Its future \<^verbatim>\<open>completed\<close> is owned by this one request and
  its result, once set, is the request itself, so the record holds the future's state;
  \<^verbatim>\<open>done_callback\<close> says whether \<^verbatim>\<open>cleanup\<close> has been added to the future.
\<close>

record request =
  request_id :: int
  request_code :: pystr
  request_reply :: json
  completed :: future
  done_callback :: bool

definition bytes :: "request \<Rightarrow> exn + string" where
  "bytes r =
     (let message = str_int (request_id r) @ ascii '':'' @ request_code r;
          msg_length = length message;
          full_message = str_int (int msg_length) @ ascii '':'' @ message
      in encode full_message)"

text \<open>
  The outgoing wire format in the specification's words: the text
  \<^verbatim>\<open><id>:<commandText>\<close> is measured, and the frame is the UTF-8 encoding of
  \<^verbatim>\<open><innerLength>:<id>:<commandText>\<close>.
\<close>

definition wire_format :: "int \<Rightarrow> pystr \<Rightarrow> exn + string" where
  "wire_format cid text =
     encode (str_int (int (length (str_int cid @ ascii '':'' @ text)))
               @ ascii '':'' @ str_int cid @ ascii '':'' @ text)"

section \<open>JsonStreamReader\<close>

text \<open>
  The fields \<^verbatim>\<open>_exception\<close>, \<^verbatim>\<open>_buffer\<close>, \<^verbatim>\<open>_eof\<close> and \<^verbatim>\<open>_limit\<close> of the stream
  reader. \<^verbatim>\<open>StreamReader\<close> refuses a limit that is not positive, so the limit is a
  natural number.
\<close>

record json_stream_reader =
  exception :: "exn option"
  buffer :: string
  eof :: bool
  limit :: nat

text \<open>
  What the transport does to the reader while \<^verbatim>\<open>readjson\<close> is suspended in
  \<^verbatim>\<open>_wait_for_data\<close>: \<^verbatim>\<open>feed_data\<close> appends bytes, \<^verbatim>\<open>feed_eof\<close> sets the flag, and
  \<^verbatim>\<open>set_exception\<close> records the exception and raises it in the waiting call. The
  events still to come are a list; a call that waits when none is left never returns.
  Pausing and resuming the transport changes neither the buffer nor what a call returns,
  and is left out.
\<close>

datatype event = Feed_data string | Feed_eof | Set_exception exn

text \<open>
  \<^verbatim>\<open>json.loads\<close> belongs to Python's library, not to this repository, and is a parameter
  of the reader's functions. \<^verbatim>\<open>readjson\<close> tells four outcomes apart: a value, a
  \<^verbatim>\<open>JSONDecodeError\<close> whose message is \<^verbatim>\<open>Extra data\<close> (with its position), any other
  \<^verbatim>\<open>JSONDecodeError\<close>, and an exception of another class. \<^verbatim>\<open>readjson\<close> uses the
  position as an offset into the buffer.
\<close>

datatype loads_result = Decoded json | Extra_data nat | Decode_error | Loads_raises exn

type_synonym loads = "string \<Rightarrow> loads_result"

text \<open>\<^verbatim>\<open>bytes.isspace\<close> on one byte: space, tab, line feed, vertical tab, form feed, return.\<close>

definition isspace :: "char \<Rightarrow> bool" where
  "isspace c = (c \<in> {CHR 0x20, CHR 0x09, CHR 0x0A, CHR 0x0B, CHR 0x0C, CHR 0x0D})"

text \<open>
  One run of the body of \<^verbatim>\<open>while True\<close>, up to the \<^verbatim>\<open>await\<close>: it leaves the loop with
  the decoded object (if any) and the boundary \<^verbatim>\<open>sep\<close>, raises, or has to wait for data.
  \<open>no_boundary\<close> is the end of the body, reached when the buffer is empty or does not
  decode: the check of \<^verbatim>\<open>_eof\<close>.
\<close>

datatype pass = Break "json option" nat | Raise exn | Wait

definition iteration :: "loads \<Rightarrow> json_stream_reader \<Rightarrow> pass \<times> json_stream_reader" where
  "iteration loads rd =
     (let rd1 = rd\<lparr>buffer := dropWhile isspace (buffer rd)\<rparr>;
          no_boundary =
            (if eof rd1 then (Raise (IncompleteReadError (buffer rd1)), rd1\<lparr>buffer := []\<rparr>)
             else (Wait, rd1))
      in if buffer rd1 = [] then no_boundary
         else if hd (buffer rd1) \<notin> {CHR 0x7B, CHR 0x5B} then (Raise AssertionError, rd1)
         else
           (case loads (buffer rd1) of
              Decoded obj \<Rightarrow> (Break (Some obj) (length (buffer rd1) - 1), rd1)
            | Extra_data pos \<Rightarrow> (Break None pos, rd1)
            | Loads_raises e \<Rightarrow> (Raise e, rd1)
            | Decode_error \<Rightarrow> no_boundary))"

fun readjson_loop ::
  "loads \<Rightarrow> json_stream_reader \<Rightarrow> event list \<Rightarrow> pass \<times> json_stream_reader \<times> event list" where
  "readjson_loop loads rd [] = (case iteration loads rd of (p, rd1) \<Rightarrow> (p, rd1, []))"
| "readjson_loop loads rd (ev # evs) =
     (case iteration loads rd of
        (Wait, rd1) \<Rightarrow>
          (case ev of
             Feed_data d \<Rightarrow> readjson_loop loads (rd1\<lparr>buffer := buffer rd1 @ d\<rparr>) evs
           | Feed_eof \<Rightarrow> readjson_loop loads (rd1\<lparr>eof := True\<rparr>) evs
           | Set_exception e \<Rightarrow> (Raise e, rd1\<lparr>exception := Some e\<rparr>, evs))
      | (p, rd1) \<Rightarrow> (p, rd1, ev # evs))"

text \<open>
  The last lines of \<^verbatim>\<open>readjson\<close>: the object decoded in the loop, or else
  \<^verbatim>\<open>json.loads(chunk)\<close>, whose exceptions nothing catches.
\<close>

definition decode_chunk :: "loads \<Rightarrow> json option \<Rightarrow> string \<Rightarrow> exn + json" where
  "decode_chunk loads obj chunk =
     (case obj of
        Some v \<Rightarrow> Inr v
      | None \<Rightarrow>
          (case loads chunk of
             Decoded v \<Rightarrow> Inr v
           | Loads_raises e \<Rightarrow> Inl e
           | _ \<Rightarrow> Inl JSONDecodeError))"

text \<open>
  \<^verbatim>\<open>readjson\<close>. The result is \<open>None\<close> when the call never returns (it waits and the
  transport delivers nothing more), otherwise the exception raised or the object returned;
  with it come the reader afterwards and the events not yet delivered.
\<close>

definition readjson ::
  "loads \<Rightarrow> json_stream_reader \<Rightarrow> event list
     \<Rightarrow> (exn + json) option \<times> json_stream_reader \<times> event list" where
  "readjson loads rd evs =
     (case exception rd of
        Some e \<Rightarrow> (Some (Inl e), rd, evs)
      | None \<Rightarrow>
          (case readjson_loop loads rd evs of
             (Wait, rd1, evs1) \<Rightarrow> (None, rd1, evs1)
           | (Raise e, rd1, evs1) \<Rightarrow> (Some (Inl e), rd1, evs1)
           | (Break obj sep, rd1, evs1) \<Rightarrow>
               if sep > limit rd1 then (Some (Inl (LimitOverrunError sep)), rd1, evs1)
               else
                 (let chunk = take sep (buffer rd1);
                      rd2 = rd1\<lparr>buffer := drop sep (buffer rd1)\<rparr>
                  in (Some (decode_chunk loads obj chunk), rd2, evs1))))"


subsection \<open>A decoder for concrete inputs\<close>

text \<open>
  \<^verbatim>\<open>json.loads\<close> on \<^verbatim>\<open>bytes\<close> first decodes them to a \<^verbatim>\<open>str\<close>, as UTF-8 with the error
  handler \<^verbatim>\<open>surrogatepass\<close>, and then scans the \<^verbatim>\<open>str\<close>: every position it reports,
  that of \<^verbatim>\<open>Extra data\<close> among them, counts characters, not bytes. Bytes that are not
  UTF-8 raise \<^verbatim>\<open>UnicodeDecodeError\<close>, which is not a \<^verbatim>\<open>JSONDecodeError\<close>.

  \<open>sequence_length\<close> is the number of bytes of the sequence that a first byte starts,
  0 for a byte that starts none; \<open>code_point\<close> is the character of one sequence. A
  sequence is refused when a later byte is not a continuation byte, when it is longer
  than its character needs, and from 0x110000 on; with \<^verbatim>\<open>surrogatepass\<close> the three-byte
  sequences of the surrogates are accepted.
\<close>

definition sequence_length :: "char \<Rightarrow> nat" where
  "sequence_length b =
     (let n = of_char b :: nat
      in if n < 0x80 then 1
         else if 0xC2 \<le> n \<and> n < 0xE0 then 2
         else if 0xE0 \<le> n \<and> n < 0xF0 then 3
         else if 0xF0 \<le> n \<and> n < 0xF5 then 4
         else 0)"

definition continuation :: "nat \<Rightarrow> bool" where
  "continuation n = (0x80 \<le> n \<and> n < 0xC0)"

fun code_point :: "nat list \<Rightarrow> nat option" where
  "code_point [a] = Some a"
| "code_point [a, b] =
     (if continuation b then Some ((a - 0xC0) * 0x40 + (b - 0x80)) else None)"
| "code_point [a, b, c] =
     (let cp = (a - 0xE0) * 0x1000 + (b - 0x80) * 0x40 + (c - 0x80)
      in if continuation b \<and> continuation c \<and> 0x800 \<le> cp then Some cp else None)"
| "code_point [a, b, c, d] =
     (let cp = (a - 0xF0) * 0x40000 + (b - 0x80) * 0x1000 + (c - 0x80) * 0x40 + (d - 0x80)
      in if continuation b \<and> continuation c \<and> continuation d
            \<and> 0x10000 \<le> cp \<and> cp < 0x110000
         then Some cp else None)"
| "code_point _ = None"

fun utf8_decode :: "string \<Rightarrow> pystr option" where
  "utf8_decode [] = Some []"
| "utf8_decode (b # bs) =
     (let k = sequence_length b
      in if k = 0 \<or> length bs < k - 1 then None
         else
           (case code_point (map of_char (b # take (k - 1) bs)) of
              None \<Rightarrow> None
            | Some c \<Rightarrow>
                (case utf8_decode (drop (k - 1) bs) of
                   None \<Rightarrow> None
                 | Some cs \<Rightarrow> Some (c # cs))))"

text \<open>
  The scanner, on the characters: objects, arrays, strings without backslash, integers
  and \<^verbatim>\<open>null\<close>, \<^verbatim>\<open>true\<close>, \<^verbatim>\<open>false\<close>, following the library's scanner. The position of
  \<^verbatim>\<open>Extra data\<close> is that of the first character after the value and the white space
  behind it. The decoder is applied to such texts only, where a general statement about
  every decoder needs a concrete one; texts with an escape in a string, with a fraction
  or an exponent in a number, or that the library reads as UTF-16 or UTF-32 (a byte
  order mark, or a zero byte in the first two bytes) are outside it. The first argument
  of the scanner's functions bounds the number of nested calls; \<open>json_loads\<close> starts
  with more than the text has characters, and every call but the first comes after a
  character has been read.

  The characters are numbers: 0x22 is the double quote, 0x5C the backslash, 0x7B and
  0x7D the braces, 0x5B and 0x5D the brackets, 0x3A the colon, 0x2C the comma, 0x2D the
  minus sign, 0x30 to 0x39 the digits.
\<close>

definition json_ws :: "nat \<Rightarrow> bool" where
  "json_ws c = (c \<in> {0x20, 0x09, 0x0A, 0x0D})"

definition digit :: "nat \<Rightarrow> bool" where
  "digit c = (0x30 \<le> c \<and> c \<le> 0x39)"

definition int_of_digits :: "pystr \<Rightarrow> int" where
  "int_of_digits ds = foldl (\<lambda>a c. 10 * a + (int c - 0x30)) 0 ds"

definition scan_number :: "pystr \<Rightarrow> (json \<times> pystr) option" where
  "scan_number s =
     (let neg = (s \<noteq> [] \<and> hd s = 0x2D);
          t = (if neg then tl s else s)
      in if t = [] then None
         else if hd t = 0x30 then Some (JInt 0, tl t)
         else if digit (hd t) then
           Some (JInt (if neg then - int_of_digits (takeWhile digit t)
                       else int_of_digits (takeWhile digit t)),
                 dropWhile digit t)
         else None)"

fun scanstring :: "pystr \<Rightarrow> (pystr \<times> pystr) option" where
  "scanstring [] = None"
| "scanstring (c # cs) =
     (if c = 0x22 then Some ([], cs)
      else if c = 0x5C \<or> c < 0x20 then None
      else (case scanstring cs of None \<Rightarrow> None | Some (t, r) \<Rightarrow> Some (c # t, r)))"

text \<open>
  \<^verbatim>\<open>dict(pairs)\<close>: a key seen again keeps its place and takes the later value,
  which is \<^const>\<open>AList.update\<close>.
\<close>

fun scan_once :: "nat \<Rightarrow> pystr \<Rightarrow> (json \<times> pystr) option"
and JSONObject :: "nat \<Rightarrow> (pystr \<times> json) list \<Rightarrow> pystr \<Rightarrow> (json \<times> pystr) option"
and JSONArray :: "nat \<Rightarrow> json list \<Rightarrow> pystr \<Rightarrow> (json \<times> pystr) option" where
  "scan_once 0 s = None"
| "scan_once (Suc n) s =
     (if s = [] then None
      else if hd s = 0x22 then
        (case scanstring (tl s) of None \<Rightarrow> None | Some (t, r) \<Rightarrow> Some (JString t, r))
      else if hd s = 0x7B then
        (let r = dropWhile json_ws (tl s) in
         if r \<noteq> [] \<and> hd r = 0x7D then Some (JObject [], tl r) else JSONObject n [] r)
      else if hd s = 0x5B then
        (let r = dropWhile json_ws (tl s) in
         if r \<noteq> [] \<and> hd r = 0x5D then Some (JArray [], tl r) else JSONArray n [] r)
      else if take 4 s = ascii ''null'' then Some (JNull, drop 4 s)
      else if take 4 s = ascii ''true'' then Some (JBool True, drop 4 s)
      else if take 5 s = ascii ''false'' then Some (JBool False, drop 5 s)
      else scan_number s)"
| "JSONObject 0 pairs s = None"
| "JSONObject (Suc n) pairs s =
     (if s = [] \<or> hd s \<noteq> 0x22 then None
      else
        (case scanstring (tl s) of
           None \<Rightarrow> None
         | Some (key, r1) \<Rightarrow>
             (let r2 = dropWhile json_ws r1 in
              if r2 = [] \<or> hd r2 \<noteq> 0x3A then None
              else
                (case scan_once n (dropWhile json_ws (tl r2)) of
                   None \<Rightarrow> None
                 | Some (v, r3) \<Rightarrow>
                     (let r4 = dropWhile json_ws r3 in
                      if r4 = [] then None
                      else if hd r4 = 0x7D then Some (JObject (AList.update key v pairs), tl r4)
                      else if hd r4 = 0x2C then
                        JSONObject n (AList.update key v pairs) (dropWhile json_ws (tl r4))
                      else None)))))"
| "JSONArray 0 vals s = None"
| "JSONArray (Suc n) vals s =
     (case scan_once n s of
        None \<Rightarrow> None
      | Some (v, r1) \<Rightarrow>
          (let r2 = dropWhile json_ws r1 in
           if r2 = [] then None
           else if hd r2 = 0x5D then Some (JArray (vals @ [v]), tl r2)
           else if hd r2 = 0x2C then JSONArray n (vals @ [v]) (dropWhile json_ws (tl r2))
           else None))"

definition json_loads :: loads where
  "json_loads b =
     (case utf8_decode b of
        None \<Rightarrow> Loads_raises UnicodeDecodeError
      | Some s \<Rightarrow>
          (case scan_once (Suc (length s)) (dropWhile json_ws s) of
             None \<Rightarrow> Decode_error
           | Some (v, r) \<Rightarrow>
               (let r' = dropWhile json_ws r in
                if r' = [] then Decoded v else Extra_data (length s - length r'))))"

section \<open>VLCApi\<close>

subsection \<open>Operations of Python values and futures\<close>

text \<open>\<^verbatim>\<open>obj.get(key, None)\<close>: only a \<^verbatim>\<open>dict\<close> has the method.\<close>

fun dict_get :: "json \<Rightarrow> pystr \<Rightarrow> exn + json" where
  "dict_get (JObject d) key = (case map_of d key of None \<Rightarrow> Inr JNull | Some v \<Rightarrow> Inr v)"
| "dict_get _ key = Inl AttributeError"

text \<open>\<^verbatim>\<open>obj[key]\<close> with a \<^verbatim>\<open>str\<close> key: a \<^verbatim>\<open>dict\<close> without the key raises \<^verbatim>\<open>KeyError\<close>.\<close>

fun subscript :: "json \<Rightarrow> pystr \<Rightarrow> exn + json" where
  "subscript (JObject d) key = (case map_of d key of None \<Rightarrow> Inl (KeyError key) | Some v \<Rightarrow> Inr v)"
| "subscript _ key = Inl TypeError"

text \<open>The truth value of an object in a condition.\<close>

fun truthy :: "json \<Rightarrow> bool" where
  "truthy JNull = False"
| "truthy (JBool b) = b"
| "truthy (JInt i) = (i \<noteq> 0)"
| "truthy (JString t) = (t \<noteq> [])"
| "truthy (JArray vs) = (vs \<noteq> [])"
| "truthy (JObject d) = (d \<noteq> [])"

text \<open>
  A decoded value as a key of \<^verbatim>\<open>current_requests\<close>, whose keys are integers: \<^verbatim>\<open>True\<close>
  and \<^verbatim>\<open>False\<close> are equal to 1 and 0, a \<^verbatim>\<open>str\<close> is equal to no integer, and a
  \<^verbatim>\<open>list\<close> or \<^verbatim>\<open>dict\<close> cannot be hashed.
\<close>

fun int_key :: "json \<Rightarrow> exn + int option" where
  "int_key (JInt i) = Inr (Some i)"
| "int_key (JBool b) = Inr (Some (if b then 1 else 0))"
| "int_key (JString t) = Inr None"
| "int_key JNull = Inr None"
| "int_key (JArray vs) = Inl TypeError"
| "int_key (JObject d) = Inl TypeError"

text \<open>\<^verbatim>\<open>Future.cancel\<close> changes a pending future only; \<^verbatim>\<open>set_result\<close> needs a pending one.\<close>

fun cancel :: "future \<Rightarrow> future" where
  "cancel Pending = Cancelled"
| "cancel f = f"

fun set_result :: "future \<Rightarrow> exn + future" where
  "set_result Pending = Inr Finished"
| "set_result f = Inl InvalidStateError"

subsection \<open>The client\<close>

text \<open>
  The attributes of \<^verbatim>\<open>VLCApi\<close>. \<^verbatim>\<open>current_requests\<close> is a \<^verbatim>\<open>dict\<close>: an association
  list in insertion order. \<^verbatim>\<open>writer\<close> holds the chunks passed to \<^verbatim>\<open>writer.write\<close>.
  \<^verbatim>\<open>__init__\<close> does not assign \<^verbatim>\<open>shutdown\<close>: \<open>None\<close> is the attribute that does not
  exist yet, and reading it raises \<^verbatim>\<open>AttributeError\<close>. \<^verbatim>\<open>reader_task\<close> is only ever
  written; the field says whether it holds a task.
\<close>

record api =
  reader :: json_stream_reader
  writer :: "string list"
  running :: bool
  reader_task :: bool
  request_count :: int
  current_requests :: "(int \<times> request) list"
  read_exception :: "exn option"
  shutdown :: "future option"

subsection \<open>VLCApi.read\<close>

text \<open>
  The body of the loop after \<^verbatim>\<open>readjson\<close> has returned \<^verbatim>\<open>reply\<close>. The request found in
  the table is the object the caller awaits, so assigning \<^verbatim>\<open>request_reply\<close> changes the
  table's entry, also when \<^verbatim>\<open>set_result\<close> then raises.
\<close>

definition dispatch :: "api \<Rightarrow> json \<Rightarrow> (exn + unit) \<times> api" where
  "dispatch s reply =
     (case dict_get reply (ascii ''reply_id'') of
        Inl e \<Rightarrow> (Inl e, s)
      | Inr reply_id \<Rightarrow>
          if reply_id = JNull then (Inr (), s)
          else
            (case int_key reply_id of
               Inl e \<Rightarrow> (Inl e, s)
             | Inr None \<Rightarrow> (Inr (), s)
             | Inr (Some k) \<Rightarrow>
                 (case map_of (current_requests s) k of
                    None \<Rightarrow> (Inr (), s)
                  | Some request \<Rightarrow>
                      (let request1 = request\<lparr>request_reply := reply\<rparr>;
                           s1 = s\<lparr>current_requests := AList.update k request1 (current_requests s)\<rparr>
                       in if completed request1 = Cancelled then (Inr (), s1)
                          else
                            (case set_result (completed request1) of
                               Inl e \<Rightarrow> (Inl e, s1)
                             | Inr f \<Rightarrow>
                                 (Inr (),
                                  s1\<lparr>current_requests :=
                                       AList.update k (request1\<lparr>completed := f\<rparr>)
                                         (current_requests s1)\<rparr>))))))"

text \<open>
  The done-callbacks. \<^verbatim>\<open>set_result\<close> and \<^verbatim>\<open>cancel\<close> schedule a future's callbacks with
  \<^verbatim>\<open>call_soon\<close>, so \<^verbatim>\<open>cleanup\<close> runs when the reading task next gives control back to the
  event loop: every request whose future is done and has the callback leaves the table.
\<close>

definition run_callbacks :: "api \<Rightarrow> api" where
  "run_callbacks s =
     s\<lparr>current_requests :=
         filter (\<lambda>(k, r). \<not> (done_callback r \<and> completed r \<noteq> Pending)) (current_requests s)\<rparr>"

text \<open>
  The \<^verbatim>\<open>try\<close> block of \<^verbatim>\<open>read\<close>: the loop. \<^verbatim>\<open>readjson\<close> gives control back exactly
  when it waits for the transport, that is when it used up an event or never returns.
  The value is \<open>None\<close> when the loop never ends.
\<close>

partial_function (option) read_loop ::
  "loads \<Rightarrow> api \<Rightarrow> event list \<Rightarrow> ((exn + unit) \<times> api \<times> event list) option" where
  "read_loop loads s evs =
     (if \<not> running s then Some (Inr (), s, evs)
      else
        (case readjson loads (reader s) evs of
           (None, rd, evs1) \<Rightarrow> None
         | (Some r, rd, evs1) \<Rightarrow>
             (let s1 = (if length evs1 < length evs then run_callbacks (s\<lparr>reader := rd\<rparr>)
                        else s\<lparr>reader := rd\<rparr>)
              in case r of
                   Inl e \<Rightarrow> Some (Inl e, s1, evs1)
                 | Inr reply \<Rightarrow>
                     (case dispatch s1 reply of
                        (Inl e, s2) \<Rightarrow> Some (Inl e, s2, evs1)
                      | (Inr u, s2) \<Rightarrow> read_loop loads s2 evs1))))"

text \<open>The classes named by \<^verbatim>\<open>except (RuntimeError, IncompleteReadError)\<close>.\<close>

fun caught :: "exn \<Rightarrow> bool" where
  "caught (RuntimeError m) = True"
| "caught RecursionError = True"
| "caught (IncompleteReadError partial) = True"
| "caught e = False"

definition cancel_requests :: "(int \<times> request) list \<Rightarrow> (int \<times> request) list" where
  "cancel_requests d = map (\<lambda>(k, r). (k, r\<lparr>completed := cancel (completed r)\<rparr>)) d"

text \<open>\<^verbatim>\<open>read\<close>: the loop, the \<^verbatim>\<open>except\<close> clause and the \<^verbatim>\<open>finally\<close> clause.\<close>

definition read :: "loads \<Rightarrow> api \<Rightarrow> event list \<Rightarrow> ((exn + unit) \<times> api \<times> event list) option" where
  "read loads s evs =
     (case read_loop loads s evs of
        None \<Rightarrow> None
      | Some (r, s1, rest) \<Rightarrow>
          (let s2 = (case r of
                       Inl e \<Rightarrow>
                         if caught e then
                           s1\<lparr>read_exception := Some e,
                              current_requests := cancel_requests (current_requests s1)\<rparr>
                         else s1
                     | Inr u \<Rightarrow> s1);
               s3 = s2\<lparr>reader_task := False\<rparr>
           in case shutdown s3 of
                None \<Rightarrow> Some (Inl AttributeError, s3, rest)
              | Some f \<Rightarrow> Some (r, s3\<lparr>shutdown := Some (cancel f)\<rparr>, rest)))"

text \<open>
  The loop body applied to decoded replies one after the other, as the loop does with the
  replies of one chunk: it stops at the first exception.
\<close>

fun dispatch_all :: "api \<Rightarrow> json list \<Rightarrow> (exn + unit) \<times> api" where
  "dispatch_all s [] = (Inr (), s)"
| "dispatch_all s (reply # replies) =
     (case dispatch s reply of
        (Inl e, s1) \<Rightarrow> (Inl e, s1)
      | (Inr u, s1) \<Rightarrow> dispatch_all s1 replies)"

subsection \<open>VLCApi.issue_request and VLCApi.execute\<close>

text \<open>The value returned is the future of the new request, named by the request's id.\<close>

definition issue_request :: "api \<Rightarrow> pystr \<Rightarrow> (exn + int) \<times> api" where
  "issue_request s lua =
     (case read_exception s of
        Some e \<Rightarrow> (Inl e, s)
      | None \<Rightarrow>
          (let req_id = request_count s;
               s1 = s\<lparr>request_count := req_id + 1\<rparr>;
               request = \<lparr>request_id = req_id, request_code = lua, request_reply = JNull,
                          completed = Pending, done_callback = False\<rparr>;
               s2 = s1\<lparr>current_requests := AList.update req_id request (current_requests s1)\<rparr>
           in case bytes request of
                Inl e \<Rightarrow> (Inl e, s2)
              | Inr b \<Rightarrow>
                  (Inr req_id,
                   s2\<lparr>writer := writer s2 @ [b],
                      current_requests :=
                        AList.update req_id (request\<lparr>done_callback := True\<rparr>)
                          (current_requests s2)\<rparr>)))"

text \<open>
  \<^verbatim>\<open>execute\<close> awaits the future. What the await delivers is decided by the event loop and
  the other tasks, and is a parameter: the client's state when the caller runs again, with
  the resolved request or the exception raised at the await; \<open>None\<close> when the future is
  never resolved.
\<close>

type_synonym awaiting = "api \<Rightarrow> int \<Rightarrow> ((exn + request) \<times> api) option"

definition execute :: "awaiting \<Rightarrow> api \<Rightarrow> pystr \<Rightarrow> ((exn + json) \<times> api) option" where
  "execute await s lua =
     (case issue_request s lua of
        (Inl e, s1) \<Rightarrow> Some (Inl e, s1)
      | (Inr fut, s1) \<Rightarrow>
          (case await s1 fut of
             None \<Rightarrow> None
           | Some (Inl e, s2) \<Rightarrow> Some (Inl e, s2)
           | Some (Inr reply, s2) \<Rightarrow>
               (let obj = request_reply reply in
                case subscript obj (ascii ''timeout'') of
                  Inl e \<Rightarrow> Some (Inl e, s2)
                | Inr timeout \<Rightarrow>
                    if truthy timeout then Some (Inl (TimeoutError lua), s2)
                    else
                      (case dict_get obj (ascii ''error'') of
                         Inl e \<Rightarrow> Some (Inl e, s2)
                       | Inr error \<Rightarrow>
                           if error \<noteq> JNull then
                             Some (Inl (RuntimeError (Failed_to_execute lua error)), s2)
                           else Some (Inr obj, s2)))))"

subsection \<open>VLCApi.connect\<close>

text \<open>
  The outer \<^verbatim>\<open>except\<close> clause of \<^verbatim>\<open>connect\<close>, entered with the exception \<open>e\<close>: an
  exception raised inside the clause replaces \<open>e\<close>.
\<close>

definition connect_except :: "exn \<Rightarrow> api \<Rightarrow> (exn + unit) \<times> api" where
  "connect_except e s =
     (let s1 = s\<lparr>running := False\<rparr> in
      case shutdown s1 of
        None \<Rightarrow> (Inl AttributeError, s1)
      | Some f \<Rightarrow> (Inl e, s1\<lparr>shutdown := Some (cancel f)\<rparr>))"

text \<open>
  \<^verbatim>\<open>connect\<close>. The transport and the remote side are parameters: \<open>open1\<close> and \<open>open2\<close>
  are what the first and the second call of \<^verbatim>\<open>_open_connection\<close> do (raise, or give a
  reader with a fresh writer), and \<open>selftest\<close> is what starting the reader task and
  awaiting \<^verbatim>\<open>test_connection\<close> lead to (\<open>None\<close> when the await never ends).
\<close>

type_synonym open_result = "exn + json_stream_reader"

definition connect ::
  "(api \<Rightarrow> ((exn + bool) \<times> api) option) \<Rightarrow> open_result \<Rightarrow> open_result \<Rightarrow> api
     \<Rightarrow> ((exn + unit) \<times> api) option" where
  "connect selftest open1 open2 s =
     (if running s then Some (Inl AssertionError, s)
      else
        (case (case open1 of
                 Inr rd \<Rightarrow> Inr rd
               | Inl e \<Rightarrow> if e = ConnectionRefusedError then open2 else Inl e) of
           Inl e \<Rightarrow> Some (connect_except e s)
         | Inr rd \<Rightarrow>
             (let s1 = s\<lparr>reader := rd, writer := []\<rparr>;
                  s2 = s1\<lparr>shutdown := Some Pending, running := True, reader_task := True\<rparr>
              in case selftest s2 of
                   None \<Rightarrow> None
                 | Some (Inl e, s3) \<Rightarrow> Some (connect_except e s3)
                 | Some (Inr ok, s3) \<Rightarrow>
                     if ok then Some (Inr (), s3) else Some (connect_except AssertionError s3))))"

subsection \<open>VLCApi.__init__\<close>

text \<open>
  The client that \<^verbatim>\<open>__init__\<close> leaves. \<^verbatim>\<open>reader\<close> and \<^verbatim>\<open>writer\<close> are assigned by
  \<^verbatim>\<open>connect\<close>; until then the record holds an empty reader with the default limit.
\<close>

definition init :: api where
  "init =
     \<lparr>reader = \<lparr>exception = None, buffer = [], eof = False, limit = 65536\<rparr>,
      writer = [], running = False, reader_task = False, request_count = 0,
      current_requests = [], read_exception = None, shutdown = None\<rparr>"

text \<open>A client as \<^verbatim>\<open>connect\<close> leaves it when the reader task has been started.\<close>

definition connected :: api where
  "connected = init\<lparr>shutdown := Some Pending, running := True, reader_task := True\<rparr>"

text \<open>A connected client that has issued three requests, none of them answered yet.\<close>

definition outstanding :: api where
  "outstanding =
     snd (issue_request
            (snd (issue_request (snd (issue_request connected (ascii ''return 2+2'')))
                    (ascii ''return 1/0'')))
            (ascii ''return 7''))"

text \<open>
  The same client after the caller of request 1 has cancelled its future, before the
  callbacks run.
\<close>

definition abandoned :: api where
  "abandoned =
     outstanding\<lparr>current_requests :=
       map (\<lambda>(k, r). (k, if k = 1 then r\<lparr>completed := cancel (completed r)\<rparr> else r))
         (current_requests outstanding)\<rparr>"

text \<open>
  An await during which the reading task receives the one message \<open>payload\<close>: the loop
  body runs on it, the callbacks run, and the caller gets its request if the future was
  resolved, \<^verbatim>\<open>CancelledError\<close> if it was cancelled, and waits on otherwise.
\<close>

definition answered_by :: "json \<Rightarrow> awaiting" where
  "answered_by payload s fut =
     (case dispatch s payload of
        (Inl e, s1) \<Rightarrow> None
      | (Inr u, s1) \<Rightarrow>
          (case map_of (current_requests s1) fut of
             None \<Rightarrow> None
           | Some r \<Rightarrow>
               (case completed r of
                  Pending \<Rightarrow> None
                | Cancelled \<Rightarrow> Some (Inl CancelledError, run_callbacks s1)
                | Finished \<Rightarrow> Some (Inr r, run_callbacks s1))))"

subsection \<open>Replies and the requests they answer\<close>

text \<open>The correlation id of a decoded message: the integer under \<^verbatim>\<open>reply_id\<close>, if any.\<close>

definition correlation :: "json \<Rightarrow> int option" where
  "correlation reply =
     (case dict_get reply (ascii ''reply_id'') of Inr (JInt k) \<Rightarrow> Some k | _ \<Rightarrow> None)"

text \<open>
  A request answered by \<open>reply\<close>: the payload is in its result slot, and its future is
  resolved unless it had been cancelled.
\<close>

definition resolve :: "json \<Rightarrow> request \<Rightarrow> request" where
  "resolve reply r =
     (if completed r = Cancelled then r\<lparr>request_reply := reply\<rparr>
      else r\<lparr>request_reply := reply, completed := Finished\<rparr>)"

text \<open>
  An entry of the table after the replies \<open>replies\<close>: answered by the reply that carries
  its own id, unchanged when there is none.
\<close>

definition deliver :: "json list \<Rightarrow> int \<times> request \<Rightarrow> int \<times> request" where
  "deliver replies =
     (\<lambda>(k, r). (k, case find (\<lambda>reply. correlation reply = Some k) replies of
                     None \<Rightarrow> r
                   | Some reply \<Rightarrow> resolve reply r))"

section \<open>Properties of Request.bytes\<close>

lemma encode_append:
  "encode (xs @ ys) =
     (case encode xs of
        Inl e \<Rightarrow> Inl e
      | Inr a \<Rightarrow> (case encode ys of Inl e \<Rightarrow> Inl e | Inr b \<Rightarrow> Inr (a @ b)))"
  by (induction xs) (auto split: sum.splits)

lemma encode_ascii:
  "\<forall>c \<in> set xs. c < 0x80 \<Longrightarrow> encode xs = Inr (map char_of xs)"
  by (induction xs) (auto simp: utf8_char_def)

lemma str_nat_digits: "\<forall>c \<in> set (str_nat n). c < 0x80"
proof (induction n rule: str_nat.induct)
  case (1 n)
  show ?case
  proof (cases "n < 10")
    case True
    then show ?thesis by (subst str_nat.simps) simp
  next
    case False
    have "n mod 10 < 10" by simp
    then have "48 + n mod 10 < 0x80" by linarith
    with False 1 show ?thesis by (subst str_nat.simps) simp
  qed
qed

lemma str_int_digits: "\<forall>c \<in> set (str_int i). c < 0x80"
  using str_nat_digits by (simp add: str_int_def)

lemma encode_str_int: "encode (str_int i) = Inr (map char_of (str_int i))"
  by (rule encode_ascii) (rule str_int_digits)

lemma encode_colon: "encode (ascii '':'') = Inr '':''"
  by (simp add: ascii_def utf8_char_def char_of_eq_iff)

text \<open>
  Claim C7. For every correlation id and command text, \<^verbatim>\<open>Request.bytes\<close> is the UTF-8
  encoding of \<^verbatim>\<open><innerLength>:<id>:<commandText>\<close>, where the length is that of the text
  \<^verbatim>\<open><id>:<commandText>\<close> in code points. Byte by byte: the decimal digits of that length,
  a colon, the digits of the id, a colon, and the encoded command text as the frame's last
  bytes, with nothing after it. A command text that has no UTF-8 encoding (a lone
  surrogate) makes \<^verbatim>\<open>bytes\<close> raise the encoder's error.
\<close>

theorem bytes_wire_format:
  "bytes r = wire_format (request_id r) (request_code r)
   \<and> bytes r =
       (case encode (request_code r) of
          Inl e \<Rightarrow> Inl e
        | Inr t \<Rightarrow>
            Inr (map char_of
                   (str_int (int (length (str_int (request_id r)) + 1 + length (request_code r))))
                 @ '':'' @ map char_of (str_int (request_id r)) @ '':'' @ t))"
proof -
  have a: "bytes r = wire_format (request_id r) (request_code r)"
    by (simp add: bytes_def wire_format_def Let_def)
  have len: "length (str_int (request_id r) @ ascii '':'' @ request_code r)
             = length (str_int (request_id r)) + 1 + length (request_code r)"
    by (simp add: ascii_def)
  have b: "wire_format (request_id r) (request_code r) =
       (case encode (request_code r) of
          Inl e \<Rightarrow> Inl e
        | Inr t \<Rightarrow>
            Inr (map char_of
                   (str_int (int (length (str_int (request_id r)) + 1 + length (request_code r))))
                 @ '':'' @ map char_of (str_int (request_id r)) @ '':'' @ t))"
    unfolding wire_format_def len
    by (simp add: encode_append encode_str_int encode_colon split: sum.splits)
  from a b show ?thesis by simp
qed

theorem bytes_wire_format_witness:
  "bytes \<lparr>request_id = 0, request_code = ascii ''return 2+2'', request_reply = JNull,
          completed = Pending, done_callback = False\<rparr> = Inr ''12:0:return 2+2''"
  using bytes_wire_format
    [of "\<lparr>request_id = 0, request_code = ascii ''return 2+2'', request_reply = JNull,
          completed = Pending, done_callback = False\<rparr>"]
  by (simp add: wire_format_def str_int_def str_nat.simps ascii_def utf8_char_def char_of_eq_iff)

section \<open>Properties of JsonStreamReader.readjson\<close>

lemmas decoder_simps =
  json_loads_def sequence_length_def continuation_def json_ws_def digit_def scan_number_def
  int_of_digits_def ascii_def Let_def








lemma readjson_loop_done:
  "iteration loads rd = (p, rd0) \<Longrightarrow> p \<noteq> Wait \<Longrightarrow> readjson_loop loads rd evs = (p, rd0, evs)"
  by (cases evs; cases p) auto

lemma readjson_loop_induct [consumes 1, case_names stop feed_data feed_eof set_exception]:
  assumes run: "readjson_loop loads rd evs = (p, rd1, rest)"
    and stop: "\<And>rd evs p rd0. iteration loads rd = (p, rd0) \<Longrightarrow> p \<noteq> Wait \<or> evs = []
                 \<Longrightarrow> P rd evs p rd0 evs"
    and feed_data: "\<And>rd d evs rd0 p rd1 rest. iteration loads rd = (Wait, rd0)
                 \<Longrightarrow> readjson_loop loads (rd0\<lparr>buffer := buffer rd0 @ d\<rparr>) evs = (p, rd1, rest)
                 \<Longrightarrow> P (rd0\<lparr>buffer := buffer rd0 @ d\<rparr>) evs p rd1 rest
                 \<Longrightarrow> P rd (Feed_data d # evs) p rd1 rest"
    and feed_eof: "\<And>rd evs rd0 p rd1 rest. iteration loads rd = (Wait, rd0)
                 \<Longrightarrow> readjson_loop loads (rd0\<lparr>eof := True\<rparr>) evs = (p, rd1, rest)
                 \<Longrightarrow> P (rd0\<lparr>eof := True\<rparr>) evs p rd1 rest
                 \<Longrightarrow> P rd (Feed_eof # evs) p rd1 rest"
    and set_exception: "\<And>rd e evs rd0. iteration loads rd = (Wait, rd0)
                 \<Longrightarrow> P rd (Set_exception e # evs) (Raise e) (rd0\<lparr>exception := Some e\<rparr>) evs"
  shows "P rd evs p rd1 rest"
  using run
proof (induction evs arbitrary: rd)
  case Nil
  obtain q rd0 where it: "iteration loads rd = (q, rd0)" by (cases "iteration loads rd")
  with Nil have "p = q" "rd1 = rd0" "rest = []" by simp_all
  with stop [OF it] show ?case by simp
next
  case (Cons ev evs)
  obtain q rd0 where it: "iteration loads rd = (q, rd0)" by (cases "iteration loads rd")
  show ?case
  proof (cases "q = Wait")
    case False
    with Cons.prems it have "p = q" "rd1 = rd0" "rest = ev # evs" by (cases q; simp)+
    with stop [OF it] False show ?thesis by simp
  next
    case True
    show ?thesis
    proof (cases ev)
      case (Feed_data d)
      with Cons.prems it True
      have r: "readjson_loop loads (rd0\<lparr>buffer := buffer rd0 @ d\<rparr>) evs = (p, rd1, rest)" by simp
      from feed_data [OF it [unfolded True] r Cons.IH [OF r]] Feed_data show ?thesis by simp
    next
      case Feed_eof
      with Cons.prems it True
      have r: "readjson_loop loads (rd0\<lparr>eof := True\<rparr>) evs = (p, rd1, rest)" by simp
      from feed_eof [OF it [unfolded True] r Cons.IH [OF r]] Feed_eof show ?thesis by simp
    next
      case (Set_exception e)
      with Cons.prems it True
      have "p = Raise e" "rd1 = rd0\<lparr>exception := Some e\<rparr>" "rest = evs" by simp_all
      with set_exception [OF it [unfolded True]] Set_exception show ?thesis by simp
    qed
  qed
qed




lemma readjson_loop_append:
  "readjson_loop loads rd evs = (p, rd1, rest) \<Longrightarrow> p \<noteq> Wait
     \<Longrightarrow> readjson_loop loads rd (evs @ later) = (p, rd1, rest @ later)"
proof (induction rule: readjson_loop_induct)
  case (stop rd evs p rd0)
  then show ?case using readjson_loop_done [of loads rd p rd0] by simp
next
  case (feed_data rd d evs rd0 p rd1 rest)
  then show ?case by simp
next
  case (feed_eof rd evs rd0 p rd1 rest)
  then show ?case by simp
next
  case (set_exception rd e evs rd0)
  then show ?case by simp
qed





lemma loads_sp_ab: \<open>json_loads ''{"a":1}{"b":2}'' = Extra_data 7\<close>
  by (simp add: decoder_simps)

lemma loads_a: \<open>json_loads ''{"a":1}'' = Decoded (JObject [(ascii ''a'', JInt 1)])\<close>
  by (simp add: decoder_simps ascii_def)


lemma loads_partial: \<open>json_loads ''{"a":1'' = Decode_error\<close>
  by (simp add: decoder_simps)


lemma loads_b: \<open>json_loads ''{"b":2}'' = Decoded (JObject [(ascii ''b'', JInt 2)])\<close>
  by (simp add: decoder_simps ascii_def)



lemma loads_half:
  \<open>json_loads (''{"a":"'' @ [CHR 0xC3]) = Loads_raises UnicodeDecodeError\<close>
  by (simp add: decoder_simps)

text \<open>
  Claim C1. The reader holds the two objects \<^verbatim>\<open>{"a":1}{"b":2}\<close>, fed as one chunk. The
  first call returns the first object and leaves the second in the buffer. The second
  call parses the whole buffer, takes \<^verbatim>\<open>len(self._buffer)-1\<close>, which is 6 of 7 bytes, as
  the boundary, and returns the second object with the closing brace still in the buffer:
  the buffer is not empty afterwards and the boundary is not the buffer's end. A third
  call fails the assertion on the first byte.
\<close>

theorem readjson_two_objects:
  \<open>readjson json_loads
      \<lparr>exception = None, buffer = ''{"a":1}{"b":2}'', eof = False, limit = 65536\<rparr> []
    = (Some (Inr (JObject [(ascii ''a'', JInt 1)])),
       \<lparr>exception = None, buffer = ''{"b":2}'', eof = False, limit = 65536\<rparr>, [])
   \<and> readjson_loop json_loads
      \<lparr>exception = None, buffer = ''{"b":2}'', eof = False, limit = 65536\<rparr> []
    = (Break (Some (JObject [(ascii ''b'', JInt 2)])) 6,
       \<lparr>exception = None, buffer = ''{"b":2}'', eof = False, limit = 65536\<rparr>, [])
   \<and> readjson json_loads
      \<lparr>exception = None, buffer = ''{"b":2}'', eof = False, limit = 65536\<rparr> []
    = (Some (Inr (JObject [(ascii ''b'', JInt 2)])),
       \<lparr>exception = None, buffer = ''}'', eof = False, limit = 65536\<rparr>, [])
   \<and> readjson json_loads
      \<lparr>exception = None, buffer = ''}'', eof = False, limit = 65536\<rparr> []
    = (Some (Inl AssertionError),
       \<lparr>exception = None, buffer = ''}'', eof = False, limit = 65536\<rparr>, [])\<close>
proof (intro conjI)
  show \<open>readjson json_loads
      \<lparr>exception = None, buffer = ''{"a":1}{"b":2}'', eof = False, limit = 65536\<rparr> []
    = (Some (Inr (JObject [(ascii ''a'', JInt 1)])),
       \<lparr>exception = None, buffer = ''{"b":2}'', eof = False, limit = 65536\<rparr>, [])\<close>
    by (simp add: readjson_def decode_chunk_def iteration_def isspace_def loads_sp_ab loads_a)
  show \<open>readjson_loop json_loads
      \<lparr>exception = None, buffer = ''{"b":2}'', eof = False, limit = 65536\<rparr> []
    = (Break (Some (JObject [(ascii ''b'', JInt 2)])) 6,
       \<lparr>exception = None, buffer = ''{"b":2}'', eof = False, limit = 65536\<rparr>, [])\<close>
    by (simp add: iteration_def isspace_def loads_b)
  show \<open>readjson json_loads
      \<lparr>exception = None, buffer = ''{"b":2}'', eof = False, limit = 65536\<rparr> []
    = (Some (Inr (JObject [(ascii ''b'', JInt 2)])),
       \<lparr>exception = None, buffer = ''}'', eof = False, limit = 65536\<rparr>, [])\<close>
    by (simp add: readjson_def decode_chunk_def iteration_def isspace_def loads_b)
  show \<open>readjson json_loads
      \<lparr>exception = None, buffer = ''}'', eof = False, limit = 65536\<rparr> []
    = (Some (Inl AssertionError),
       \<lparr>exception = None, buffer = ''}'', eof = False, limit = 65536\<rparr>, [])\<close>
    by (simp add: readjson_def iteration_def isspace_def)
qed





lemma iteration_incomplete:
  assumes "eof rd"
    and "dropWhile isspace (buffer rd) = []
         \<or> (hd (dropWhile isspace (buffer rd)) \<in> {CHR 0x7B, CHR 0x5B}
            \<and> loads (dropWhile isspace (buffer rd)) = Decode_error)"
  shows "iteration loads rd =
           (Raise (IncompleteReadError (dropWhile isspace (buffer rd))), rd\<lparr>buffer := []\<rparr>)"
  using assms by (auto simp: iteration_def Let_def)

lemma iteration_wait:
  assumes "\<not> eof rd"
    and "dropWhile isspace (buffer rd) = []
         \<or> (hd (dropWhile isspace (buffer rd)) \<in> {CHR 0x7B, CHR 0x5B}
            \<and> loads (dropWhile isspace (buffer rd)) = Decode_error)"
  shows "iteration loads rd = (Wait, rd\<lparr>buffer := dropWhile isspace (buffer rd)\<rparr>)"
  using assms by (auto simp: iteration_def Let_def)


text \<open>
  Claim C4, for a reader with no transport exception recorded and a buffer that, after
  its leading white space, is empty or starts with \<^verbatim>\<open>{\<close> or \<^verbatim>\<open>[\<close> and makes
  \<^verbatim>\<open>json.loads\<close> raise a \<^verbatim>\<open>JSONDecodeError\<close> other than \<^verbatim>\<open>Extra data\<close>. If the end of
  the stream was signalled before the call, or is signalled while the call waits,
  \<^verbatim>\<open>readjson\<close> raises \<^verbatim>\<open>IncompleteReadError\<close> with the buffer's contents after the white
  space and leaves the buffer empty; the next call raises \<^verbatim>\<open>IncompleteReadError\<close> with
  no bytes, so the partial bytes are never seen again.
\<close>

theorem readjson_incomplete:
  assumes "exception rd = None"
    and "dropWhile isspace (buffer rd) = []
         \<or> (hd (dropWhile isspace (buffer rd)) \<in> {CHR 0x7B, CHR 0x5B}
            \<and> loads (dropWhile isspace (buffer rd)) = Decode_error)"
    and "eof rd \<and> evs = rest \<or> \<not> eof rd \<and> evs = Feed_eof # rest"
  shows "readjson loads rd evs =
           (Some (Inl (IncompleteReadError (dropWhile isspace (buffer rd)))),
            rd\<lparr>buffer := [], eof := True\<rparr>, rest)
     \<and> buffer (rd\<lparr>buffer := [], eof := True\<rparr>) = []
     \<and> readjson loads (rd\<lparr>buffer := [], eof := True\<rparr>) rest =
           (Some (Inl (IncompleteReadError [])), rd\<lparr>buffer := [], eof := True\<rparr>, rest)"
proof (intro conjI)
  let ?b = "dropWhile isspace (buffer rd)"
  let ?rd' = "rd\<lparr>buffer := [], eof := True\<rparr>"
  show "readjson loads rd evs = (Some (Inl (IncompleteReadError ?b)), ?rd', rest)"
  proof (cases "eof rd")
    case True
    with assms(3) have evs: "evs = rest" by simp
    from True have same: "rd\<lparr>buffer := [], eof := True\<rparr> = rd\<lparr>buffer := []\<rparr>" by simp
    from readjson_loop_done [OF iteration_incomplete [of rd loads, OF True assms(2)]]
    have "readjson_loop loads rd evs = (Raise (IncompleteReadError ?b), rd\<lparr>buffer := []\<rparr>, evs)"
      by simp
    with assms(1) evs same show ?thesis by (simp add: readjson_def)
  next
    case False
    with assms(3) have evs: "evs = Feed_eof # rest" by simp
    let ?rd0 = "rd\<lparr>buffer := ?b\<rparr>"
    have w: "iteration loads rd = (Wait, ?rd0)" using False assms(2) by (rule iteration_wait [of rd loads])
    have "dropWhile isspace (buffer (?rd0\<lparr>eof := True\<rparr>)) = ?b" by (simp add: dropWhile_idem)
    with assms(2) have nb: "dropWhile isspace (buffer (?rd0\<lparr>eof := True\<rparr>)) = []
         \<or> (hd (dropWhile isspace (buffer (?rd0\<lparr>eof := True\<rparr>))) \<in> {CHR 0x7B, CHR 0x5B}
            \<and> loads (dropWhile isspace (buffer (?rd0\<lparr>eof := True\<rparr>))) = Decode_error)"
      by simp
    have "iteration loads (?rd0\<lparr>eof := True\<rparr>) =
            (Raise (IncompleteReadError (dropWhile isspace (buffer (?rd0\<lparr>eof := True\<rparr>)))),
             ?rd0\<lparr>eof := True\<rparr>\<lparr>buffer := []\<rparr>)"
      by (rule iteration_incomplete [of "?rd0\<lparr>eof := True\<rparr>" loads, OF _ nb]) simp
    then have "iteration loads (?rd0\<lparr>eof := True\<rparr>) = (Raise (IncompleteReadError ?b), ?rd')"
      by (simp add: dropWhile_idem)
    from readjson_loop_done [OF this, of rest]
    have "readjson_loop loads rd evs = (Raise (IncompleteReadError ?b), ?rd', rest)"
      using w evs by simp
    with assms(1) show ?thesis by (simp add: readjson_def)
  qed
  show "buffer ?rd' = []" by simp
  have "iteration loads ?rd' = (Raise (IncompleteReadError []), ?rd')"
    using iteration_incomplete [of ?rd' loads] by simp
  from readjson_loop_done [OF this, of rest] assms(1)
  show "readjson loads ?rd' rest = (Some (Inl (IncompleteReadError [])), ?rd', rest)"
    by (simp add: readjson_def)
qed


theorem readjson_incomplete_witness:
  \<open>readjson json_loads
      \<lparr>exception = None, buffer = ''{"a":1'', eof = False, limit = 65536\<rparr> [Feed_eof]
     = (Some (Inl (IncompleteReadError ''{"a":1'')),
        \<lparr>exception = None, buffer = [], eof = True, limit = 65536\<rparr>, [])
   \<and> readjson json_loads
      \<lparr>exception = None, buffer = [], eof = True, limit = 65536\<rparr> []
     = (Some (Inl (IncompleteReadError [])),
        \<lparr>exception = None, buffer = [], eof = True, limit = 65536\<rparr>, [])\<close>
proof -
  let ?rd = \<open>\<lparr>exception = None, buffer = ''{"a":1'', eof = False, limit = 65536\<rparr>\<close>
  have h1: "exception ?rd = None" by simp
  have h2: "dropWhile isspace (buffer ?rd) = []
         \<or> (hd (dropWhile isspace (buffer ?rd)) \<in> {CHR 0x7B, CHR 0x5B}
            \<and> json_loads (dropWhile isspace (buffer ?rd)) = Decode_error)"
    by (simp add: isspace_def loads_partial)
  have h3: "eof ?rd \<and> [Feed_eof] = [] \<or> \<not> eof ?rd \<and> [Feed_eof] = Feed_eof # []" by simp
  from readjson_incomplete [of ?rd json_loads "[Feed_eof]" "[]", OF h1 h2 h3] show ?thesis by (simp add: isspace_def)
qed

text \<open>
  Three states where the end of the stream has been signalled and the buffer holds no
  boundary, and \<^verbatim>\<open>readjson\<close> does not raise \<^verbatim>\<open>IncompleteReadError\<close>. The first byte is
  neither \<^verbatim>\<open>{\<close> nor \<^verbatim>\<open>[\<close>: the assertion fails before \<^verbatim>\<open>_eof\<close> is looked at. The
  stream ends after the first byte of a character of two bytes: \<^verbatim>\<open>json.loads\<close> raises
  \<^verbatim>\<open>UnicodeDecodeError\<close>, which \<^verbatim>\<open>readjson\<close> does not catch. The transport has
  recorded an exception: \<^verbatim>\<open>readjson\<close> raises it at once. In each of them the reader
  is unchanged, so the buffer is not cleared and the next call finds the same bytes.
\<close>

theorem readjson_incomplete_counterexample:
  \<open>readjson json_loads \<lparr>exception = None, buffer = ''x'', eof = True, limit = 65536\<rparr> []
     = (Some (Inl AssertionError),
        \<lparr>exception = None, buffer = ''x'', eof = True, limit = 65536\<rparr>, [])
   \<and> readjson json_loads
       \<lparr>exception = None, buffer = ''{"a":"'' @ [CHR 0xC3], eof = True, limit = 65536\<rparr> []
     = (Some (Inl UnicodeDecodeError),
        \<lparr>exception = None, buffer = ''{"a":"'' @ [CHR 0xC3], eof = True, limit = 65536\<rparr>, [])
   \<and> readjson json_loads
       \<lparr>exception = Some OSError, buffer = ''{"a":1'', eof = True, limit = 65536\<rparr> []
     = (Some (Inl OSError),
        \<lparr>exception = Some OSError, buffer = ''{"a":1'', eof = True, limit = 65536\<rparr>, [])\<close>
  using loads_half
  by (simp add: readjson_def iteration_def isspace_def)

section \<open>Properties of VLCApi.issue_request, VLCApi.execute and VLCApi.connect\<close>

lemma bytes_example:
  "bytes \<lparr>request_id = 0, request_code = ascii ''return 2+2'', request_reply = JNull,
          completed = Pending, done_callback = False\<rparr> = Inr ''12:0:return 2+2''"
  by (simp add: bytes_def str_int_def str_nat.simps ascii_def utf8_char_def char_of_eq_iff)

lemma issue_example:
  "issue_request connected (ascii ''return 2+2'') =
     (Inr 0,
      connected\<lparr>request_count := 1, writer := [''12:0:return 2+2''],
        current_requests :=
          [(0, \<lparr>request_id = 0, request_code = ascii ''return 2+2'', request_reply = JNull,
                 completed = Pending, done_callback = True\<rparr>)]\<rparr>)"
  by (simp add: issue_request_def Let_def bytes_example connected_def init_def)

lemma dispatch_example:
  assumes "map_of d (ascii ''reply_id'') = Some (JInt 0)"
  shows "dispatch
     (connected\<lparr>request_count := 1, writer := [''12:0:return 2+2''],
        current_requests :=
          [(0, \<lparr>request_id = 0, request_code = ascii ''return 2+2'', request_reply = JNull,
                 completed = Pending, done_callback = True\<rparr>)]\<rparr>)
     (JObject d) =
     (Inr (),
      connected\<lparr>request_count := 1, writer := [''12:0:return 2+2''],
        current_requests :=
          [(0, \<lparr>request_id = 0, request_code = ascii ''return 2+2'', request_reply = JObject d,
                 completed = Finished, done_callback = True\<rparr>)]\<rparr>)"
  using assms by (simp add: dispatch_def Let_def connected_def init_def)

lemma await_example:
  assumes "map_of d (ascii ''reply_id'') = Some (JInt 0)"
  shows "answered_by (JObject d)
     (connected\<lparr>request_count := 1, writer := [''12:0:return 2+2''],
        current_requests :=
          [(0, \<lparr>request_id = 0, request_code = ascii ''return 2+2'', request_reply = JNull,
                 completed = Pending, done_callback = True\<rparr>)]\<rparr>) 0 =
     Some (Inr \<lparr>request_id = 0, request_code = ascii ''return 2+2'', request_reply = JObject d,
                 completed = Finished, done_callback = True\<rparr>,
           connected\<lparr>request_count := 1, writer := [''12:0:return 2+2'']\<rparr>)"
  using dispatch_example [OF assms]
  by (simp add: answered_by_def run_callbacks_def connected_def init_def)

text \<open>
  Claim C8. Once a read error is recorded in \<^verbatim>\<open>read_exception\<close>, every call of
  \<^verbatim>\<open>issue_request\<close> raises that error and leaves the client as it was: no id is
  allocated, no entry is inserted, nothing is written.
\<close>

theorem issue_request_fail_fast:
  "read_exception s = Some e \<Longrightarrow> issue_request s lua = (Inl e, s)"
  by (simp add: issue_request_def)

theorem issue_request_fail_fast_witness:
  "issue_request (init\<lparr>read_exception := Some (IncompleteReadError [])\<rparr>) (ascii ''return 2+2'')
     = (Inl (IncompleteReadError []), init\<lparr>read_exception := Some (IncompleteReadError [])\<rparr>)"
  using issue_request_fail_fast [of "init\<lparr>read_exception := Some (IncompleteReadError [])\<rparr>"
      "IncompleteReadError []" "ascii ''return 2+2''"]
  by simp

text \<open>
  Claim C9. The request is issued and the await delivers it with a decoded payload that is
  an object without the key \<^verbatim>\<open>timeout\<close>. Then \<^verbatim>\<open>execute\<close> raises \<^verbatim>\<open>KeyError\<close> for
  that key: it neither returns the payload nor raises \<^verbatim>\<open>TimeoutError\<close> or
  \<^verbatim>\<open>RuntimeError\<close>, whatever else the payload holds.
\<close>

theorem execute_missing_timeout:
  assumes "issue_request s lua = (Inr fut, s1)"
    and "await s1 fut = Some (Inr reply, s2)"
    and "request_reply reply = JObject d"
    and "map_of d (ascii ''timeout'') = None"
  shows "execute await s lua = Some (Inl (KeyError (ascii ''timeout'')), s2)"
  using assms by (simp add: execute_def Let_def)

theorem execute_missing_timeout_witness:
  "execute (answered_by (JObject [(ascii ''reply_id'', JInt 0), (ascii ''error'', JNull)]))
     connected (ascii ''return 2+2'')
   = Some (Inl (KeyError (ascii ''timeout'')),
           connected\<lparr>request_count := 1, writer := [''12:0:return 2+2'']\<rparr>)"
proof -
  let ?d = "[(ascii ''reply_id'', JInt 0), (ascii ''error'', JNull)]"
  have id: "map_of ?d (ascii ''reply_id'') = Some (JInt 0)" by (simp add: ascii_def)
  have no: "map_of ?d (ascii ''timeout'') = None" by (simp add: ascii_def)
  show ?thesis
    by (rule execute_missing_timeout [where await = "answered_by (JObject ?d)",
          OF issue_example await_example [OF id] _ no]) simp
qed

text \<open>
  Claim C6, for a payload that has the key \<^verbatim>\<open>timeout\<close>. If the value under
  \<^verbatim>\<open>timeout\<close> is true in a condition (\<^verbatim>\<open>true\<close>, a number other than zero, a text, array
  or object that is not empty), \<^verbatim>\<open>execute\<close> raises \<^verbatim>\<open>TimeoutError\<close>, whatever the other
  fields are; otherwise, if \<^verbatim>\<open>error\<close> is present and not \<^verbatim>\<open>null\<close>, it raises
  \<^verbatim>\<open>RuntimeError\<close> with that error; otherwise it returns the payload unchanged.
\<close>

theorem execute_reply:
  assumes "issue_request s lua = (Inr fut, s1)"
    and "await s1 fut = Some (Inr reply, s2)"
    and "request_reply reply = JObject d"
    and "map_of d (ascii ''timeout'') = Some timeout"
  shows "execute await s lua =
     Some (if truthy timeout then Inl (TimeoutError lua)
           else (case map_of d (ascii ''error'') of
                   None \<Rightarrow> Inr (JObject d)
                 | Some error \<Rightarrow>
                     if error = JNull then Inr (JObject d)
                     else Inl (RuntimeError (Failed_to_execute lua error))),
           s2)"
  using assms by (simp add: execute_def Let_def split: option.splits)

theorem execute_reply_witness:
  "execute (answered_by (JObject [(ascii ''reply_id'', JInt 0), (ascii ''timeout'', JBool True),
                                  (ascii ''result'', JInt 4)]))
     connected (ascii ''return 2+2'')
   = Some (Inl (TimeoutError (ascii ''return 2+2'')),
           connected\<lparr>request_count := 1, writer := [''12:0:return 2+2'']\<rparr>)
   \<and> execute (answered_by (JObject [(ascii ''reply_id'', JInt 0), (ascii ''timeout'', JBool False),
                                  (ascii ''error'', JString (ascii ''boom''))]))
     connected (ascii ''return 2+2'')
   = Some (Inl (RuntimeError (Failed_to_execute (ascii ''return 2+2'') (JString (ascii ''boom'')))),
           connected\<lparr>request_count := 1, writer := [''12:0:return 2+2'']\<rparr>)
   \<and> execute (answered_by (JObject [(ascii ''reply_id'', JInt 0), (ascii ''timeout'', JBool False),
                                  (ascii ''result'', JInt 4)]))
     connected (ascii ''return 2+2'')
   = Some (Inr (JObject [(ascii ''reply_id'', JInt 0), (ascii ''timeout'', JBool False),
                         (ascii ''result'', JInt 4)]),
           connected\<lparr>request_count := 1, writer := [''12:0:return 2+2'']\<rparr>)"
proof (intro conjI)
  let ?d1 = "[(ascii ''reply_id'', JInt 0), (ascii ''timeout'', JBool True),
              (ascii ''result'', JInt 4)]"
  have id1: "map_of ?d1 (ascii ''reply_id'') = Some (JInt 0)" by (simp add: ascii_def)
  have t1: "map_of ?d1 (ascii ''timeout'') = Some (JBool True)" by (simp add: ascii_def)
  from execute_reply [where await = "answered_by (JObject ?d1)",
      OF issue_example await_example [OF id1] _ t1]
  show "execute (answered_by (JObject ?d1)) connected (ascii ''return 2+2'')
   = Some (Inl (TimeoutError (ascii ''return 2+2'')),
           connected\<lparr>request_count := 1, writer := [''12:0:return 2+2'']\<rparr>)"
    by simp
  let ?d2 = "[(ascii ''reply_id'', JInt 0), (ascii ''timeout'', JBool False),
              (ascii ''error'', JString (ascii ''boom''))]"
  have id2: "map_of ?d2 (ascii ''reply_id'') = Some (JInt 0)" by (simp add: ascii_def)
  have t2: "map_of ?d2 (ascii ''timeout'') = Some (JBool False)" by (simp add: ascii_def)
  from execute_reply [where await = "answered_by (JObject ?d2)",
      OF issue_example await_example [OF id2] _ t2]
  show "execute (answered_by (JObject ?d2)) connected (ascii ''return 2+2'')
   = Some (Inl (RuntimeError (Failed_to_execute (ascii ''return 2+2'') (JString (ascii ''boom'')))),
           connected\<lparr>request_count := 1, writer := [''12:0:return 2+2'']\<rparr>)"
    by (simp add: ascii_def)
  let ?d3 = "[(ascii ''reply_id'', JInt 0), (ascii ''timeout'', JBool False),
              (ascii ''result'', JInt 4)]"
  have id3: "map_of ?d3 (ascii ''reply_id'') = Some (JInt 0)" by (simp add: ascii_def)
  have t3: "map_of ?d3 (ascii ''timeout'') = Some (JBool False)" by (simp add: ascii_def)
  from execute_reply [where await = "answered_by (JObject ?d3)",
      OF issue_example await_example [OF id3] _ t3]
  show "execute (answered_by (JObject ?d3)) connected (ascii ''return 2+2'')
   = Some (Inr (JObject ?d3),
           connected\<lparr>request_count := 1, writer := [''12:0:return 2+2'']\<rparr>)"
    by (simp add: ascii_def)
qed

text \<open>
  Without the key \<^verbatim>\<open>timeout\<close> the payload is not returned: the reply
  \<^verbatim>\<open>{"reply_id": 0, "result": 4}\<close>, which has no true timeout flag and no error, makes
  \<^verbatim>\<open>execute\<close> raise \<^verbatim>\<open>KeyError\<close>.
\<close>

theorem execute_reply_counterexample:
  "execute (answered_by (JObject [(ascii ''reply_id'', JInt 0), (ascii ''result'', JInt 4)]))
     connected (ascii ''return 2+2'')
   = Some (Inl (KeyError (ascii ''timeout'')),
           connected\<lparr>request_count := 1, writer := [''12:0:return 2+2'']\<rparr>)
   \<and> execute (answered_by (JObject [(ascii ''reply_id'', JInt 0), (ascii ''result'', JInt 4)]))
     connected (ascii ''return 2+2'')
   \<noteq> Some (Inr (JObject [(ascii ''reply_id'', JInt 0), (ascii ''result'', JInt 4)]),
           connected\<lparr>request_count := 1, writer := [''12:0:return 2+2'']\<rparr>)"
proof -
  let ?d = "[(ascii ''reply_id'', JInt 0), (ascii ''result'', JInt 4)]"
  have id: "map_of ?d (ascii ''reply_id'') = Some (JInt 0)" by (simp add: ascii_def)
  have "execute (answered_by (JObject ?d)) connected (ascii ''return 2+2'')
   = Some (Inl (KeyError (ascii ''timeout'')),
           connected\<lparr>request_count := 1, writer := [''12:0:return 2+2'']\<rparr>)"
    using issue_example await_example [OF id]
    by (simp add: execute_def Let_def ascii_def)
  then show ?thesis by simp
qed

text \<open>
  Claim C10. On a client whose \<^verbatim>\<open>shutdown\<close> attribute was never assigned, a first
  \<^verbatim>\<open>_open_connection\<close> that raises anything but \<^verbatim>\<open>ConnectionRefusedError\<close> makes
  \<^verbatim>\<open>connect\<close> raise \<^verbatim>\<open>AttributeError\<close>: the \<^verbatim>\<open>except\<close> clause reads
  \<^verbatim>\<open>self.shutdown\<close>, and the connection error never reaches the caller.
\<close>

theorem connect_masks_error:
  assumes "\<not> running s" and "shutdown s = None"
    and "open1 = Inl e" and "e \<noteq> ConnectionRefusedError"
  shows "connect selftest open1 open2 s = Some (Inl AttributeError, s\<lparr>running := False\<rparr>)"
  using assms by (simp add: connect_def connect_except_def)

theorem connect_masks_error_witness:
  "connect (\<lambda>s. None) (Inl OSError) (Inl OSError) init = Some (Inl AttributeError, init)"
proof -
  have "\<not> running init" "shutdown init = None" "OSError \<noteq> ConnectionRefusedError"
    by (simp_all add: init_def)
  from connect_masks_error [OF this(1,2) refl this(3), of "\<lambda>s. None" "Inl OSError"]
  show ?thesis by (simp add: init_def)
qed

section \<open>Properties of VLCApi.read\<close>

lemma correlation_Some:
  "correlation reply = Some k \<longleftrightarrow> dict_get reply (ascii ''reply_id'') = Inr (JInt k)"
  by (auto simp: correlation_def split: sum.splits json.splits)

lemma dispatch_reply:
  assumes "correlation reply = Some k"
  shows "dispatch s reply =
     (case map_of (current_requests s) k of
        None \<Rightarrow> (Inr (), s)
      | Some r \<Rightarrow>
          if completed r = Finished then
            (Inl InvalidStateError,
             s\<lparr>current_requests := AList.update k (r\<lparr>request_reply := reply\<rparr>) (current_requests s)\<rparr>)
          else
            (Inr (), s\<lparr>current_requests := AList.update k (resolve reply r) (current_requests s)\<rparr>))"
proof (cases "map_of (current_requests s) k")
  case None
  with assms show ?thesis by (simp add: dispatch_def correlation_Some)
next
  case (Some r)
  with assms show ?thesis
    by (cases "completed r") (simp_all add: dispatch_def correlation_Some Let_def resolve_def)
qed

lemma update_as_map:
  "distinct (map fst al) \<Longrightarrow> map_of al k = Some r
     \<Longrightarrow> AList.update k v al = map (\<lambda>(k', r'). if k' = k then (k', v) else (k', r')) al"
proof (induction al)
  case Nil
  then show ?case by simp
next
  case (Cons p al)
  obtain k0 r0 where p: "p = (k0, r0)" by (cases p)
  show ?case
  proof (cases "k0 = k")
    case True
    with Cons.prems p have "k \<notin> fst ` set al" by auto
    then have "map (\<lambda>(k', r'). if k' = k then (k', v) else (k', r')) al = al"
      by (induction al) auto
    with True p show ?thesis by simp
  next
    case False
    with Cons p show ?thesis by simp
  qed
qed

lemma deliver_single:
  assumes "correlation reply = Some k"
  shows "deliver [reply] (k', r) = (if k' = k then (k', resolve reply r) else (k', r))"
  using assms by (simp add: deliver_def)

lemma fst_deliver [simp]: "fst (deliver rs p) = fst p"
  by (cases p) (simp add: deliver_def)

lemma map_of_deliver:
  "map_of (map (deliver rs) al) k = map_option (\<lambda>r. snd (deliver rs (k, r))) (map_of al k)"
  by (induction al) (auto simp: deliver_def split: option.splits)

lemma map_deliver_unmatched:
  "\<forall>(k, r) \<in> set al. \<forall>reply \<in> set rs. correlation reply \<noteq> Some k \<Longrightarrow> map (deliver rs) al = al"
proof (induction al)
  case Nil
  then show ?case by simp
next
  case (Cons p al)
  obtain k r where p: "p = (k, r)" by (cases p)
  with Cons.prems have "find (\<lambda>reply. correlation reply = Some k) rs = None"
    by (auto simp: find_None_iff)
  with Cons p show ?case by (simp add: deliver_def)
qed

lemma dispatch_single:
  assumes dist: "distinct (map fst (current_requests s))"
    and id: "correlation reply = Some k"
    and pend: "\<forall>r. map_of (current_requests s) k = Some r \<longrightarrow> completed r \<noteq> Finished"
  shows "dispatch s reply = (Inr (), s\<lparr>current_requests := map (deliver [reply]) (current_requests s)\<rparr>)"
proof (cases "map_of (current_requests s) k")
  case None
  then have "k \<notin> fst ` set (current_requests s)" by (simp add: map_of_eq_None_iff)
  then have "\<forall>(k', r) \<in> set (current_requests s). \<forall>r' \<in> set [reply]. correlation r' \<noteq> Some k'"
    using id by force
  from map_deliver_unmatched [OF this] None id show ?thesis by (simp add: dispatch_reply)
next
  case (Some r)
  have "map (deliver [reply]) (current_requests s)
          = map (\<lambda>(k', r'). if k' = k then (k', resolve reply r) else (k', r')) (current_requests s)"
  proof (rule map_cong [OF refl])
    fix p assume p: "p \<in> set (current_requests s)"
    obtain k' r' where kr: "p = (k', r')" by (cases p)
    have "k' = k \<Longrightarrow> r' = r" using dist p kr Some by simp
    then show "deliver [reply] p = (case p of (k', r') \<Rightarrow> if k' = k then (k', resolve reply r) else (k', r'))"
      using kr id by (auto simp: deliver_single)
  qed
  with update_as_map [OF dist Some, of "resolve reply r"] Some pend id show ?thesis
    by (simp add: dispatch_reply)
qed

lemma deliver_Cons:
  assumes "correlation reply = Some k" and "\<forall>r' \<in> set rs. correlation r' \<noteq> Some k"
  shows "deliver rs (deliver [reply] p) = deliver (reply # rs) p"
proof -
  obtain k' r where p: "p = (k', r)" by (cases p)
  from assms(2) have "find (\<lambda>r'. correlation r' = Some k) rs = None"
    by (simp add: find_None_iff)
  with assms(1) p show ?thesis by (auto simp: deliver_def split: option.splits)
qed

lemma dispatch_all_deliver:
  assumes "distinct (map fst (current_requests s))"
    and "\<forall>reply \<in> set rs. correlation reply \<noteq> None"
    and "distinct (map correlation rs)"
    and "\<forall>reply \<in> set rs. \<forall>k r. correlation reply = Some k
           \<longrightarrow> map_of (current_requests s) k = Some r \<longrightarrow> completed r \<noteq> Finished"
  shows "dispatch_all s rs = (Inr (), s\<lparr>current_requests := map (deliver rs) (current_requests s)\<rparr>)"
  using assms
proof (induction rs arbitrary: s)
  case Nil
  have "map (deliver []) (current_requests s) = current_requests s"
    by (rule map_deliver_unmatched) auto
  then show ?case by simp
next
  case (Cons reply rs)
  from Cons.prems(2) obtain k where k: "correlation reply = Some k" by auto
  from Cons.prems(3) k have "Some k \<notin> correlation ` set rs" by auto
  then have fresh: "\<forall>r' \<in> set rs. correlation r' \<noteq> Some k" by (metis imageI)
  let ?s1 = "s\<lparr>current_requests := map (deliver [reply]) (current_requests s)\<rparr>"
  have step: "dispatch s reply = (Inr (), ?s1)"
    using Cons.prems(1) k Cons.prems(4) by (intro dispatch_single) auto
  have d1: "distinct (map fst (current_requests ?s1))"
    using Cons.prems(1) by (simp add: comp_def)
  have p1: "\<forall>reply' \<in> set rs. \<forall>k' r. correlation reply' = Some k'
           \<longrightarrow> map_of (current_requests ?s1) k' = Some r \<longrightarrow> completed r \<noteq> Finished"
  proof (intro ballI allI impI)
    fix reply' k' r
    assume in_rs: "reply' \<in> set rs" and k': "correlation reply' = Some k'"
      and look: "map_of (current_requests ?s1) k' = Some r"
    from fresh in_rs k' have "k' \<noteq> k" by force
    with look k have "map_of (current_requests s) k' = Some r"
      by (auto simp: map_of_deliver deliver_single)
    with Cons.prems(4) in_rs k' show "completed r \<noteq> Finished" by auto
  qed
  have "dispatch_all ?s1 rs = (Inr (), ?s1\<lparr>current_requests := map (deliver rs) (current_requests ?s1)\<rparr>)"
    using d1 Cons.prems(2,3) p1 by (intro Cons.IH) auto
  moreover have "map (deliver rs) (map (deliver [reply]) (current_requests s))
                   = map (deliver (reply # rs)) (current_requests s)"
    using deliver_Cons [OF k fresh] by simp
  ultimately show ?case using step by simp
qed

lemma find_unique:
  "distinct (map f xs) \<Longrightarrow> x \<in> set xs \<Longrightarrow> f x = v \<Longrightarrow> find (\<lambda>y. f y = v) xs = Some x"
  by (induction xs) (auto simp: image_iff)

lemma deliver_permuted:
  assumes "distinct (map correlation rs)" and "mset rs' = mset rs"
  shows "deliver rs' = deliver rs"
proof -
  have set: "set rs' = set rs" using assms(2) by (rule mset_eq_setD)
  have "mset (map correlation rs') = mset (map correlation rs)" using assms(2) by simp
  then have dist': "distinct (map correlation rs')"
    using assms(1) mset_eq_imp_distinct_iff by blast
  have "find (\<lambda>r. correlation r = Some k) rs' = find (\<lambda>r. correlation r = Some k) rs" for k
  proof (cases "find (\<lambda>r. correlation r = Some k) rs")
    case None
    then have "find (\<lambda>r. correlation r = Some k) rs' = None"
      using set by (simp add: find_None_iff)
    with None show ?thesis by simp
  next
    case (Some r)
    then have "r \<in> set rs" "correlation r = Some k" by (auto simp: find_Some_iff)
    with set find_unique [OF dist', of r "Some k"] Some show ?thesis by simp
  qed
  then show ?thesis by (simp add: deliver_def fun_eq_iff)
qed

lemma readjson_append:
  assumes "readjson loads rd evs = (Some r, rd1, rest)"
  shows "readjson loads rd (evs @ later) = (Some r, rd1, rest @ later)"
proof (cases "exception rd")
  case (Some e)
  with assms show ?thesis by (simp add: readjson_def)
next
  case None
  obtain p rd0 rest0 where loop: "readjson_loop loads rd evs = (p, rd0, rest0)"
    by (cases "readjson_loop loads rd evs")
  with assms None have nw: "p \<noteq> Wait" and r0: "rest0 = rest"
    by (auto simp: readjson_def Let_def split: pass.splits if_splits)
  from readjson_loop_append [OF loop nw, of later] assms None loop r0 show ?thesis
    by (auto simp: readjson_def Let_def split: pass.splits if_splits)
qed

lemma read_loop_append:
  assumes "read_loop loads s evs = Some y"
  shows "read_loop loads s (evs @ later) = Some (fst y, fst (snd y), snd (snd y) @ later)"
proof (rule read_loop.raw_induct
    [where P = "\<lambda>loads s evs y.
       read_loop loads s (evs @ later) = Some (fst y, fst (snd y), snd (snd y) @ later)",
     OF _ assms])
  fix loop :: "loads \<Rightarrow> api \<Rightarrow> event list \<Rightarrow> ((exn + unit) \<times> api \<times> event list) option"
    and loads s evs y
  assume IH: "\<And>loads s evs y. loop loads s evs = Some y
      \<Longrightarrow> read_loop loads s (evs @ later) = Some (fst y, fst (snd y), snd (snd y) @ later)"
    and body: "(if \<not> running s then Some (Inr (), s, evs)
      else
        (case readjson loads (reader s) evs of
           (None, rd, evs1) \<Rightarrow> None
         | (Some r, rd, evs1) \<Rightarrow>
             (let s1 = (if length evs1 < length evs then run_callbacks (s\<lparr>reader := rd\<rparr>)
                        else s\<lparr>reader := rd\<rparr>)
              in case r of
                   Inl e \<Rightarrow> Some (Inl e, s1, evs1)
                 | Inr reply \<Rightarrow>
                     (case dispatch s1 reply of
                        (Inl e, s2) \<Rightarrow> Some (Inl e, s2, evs1)
                      | (Inr u, s2) \<Rightarrow> loop loads s2 evs1)))) = Some y"
  show "read_loop loads s (evs @ later) = Some (fst y, fst (snd y), snd (snd y) @ later)"
  proof (cases "running s")
    case False
    with body show ?thesis by (subst read_loop.simps) auto
  next
    case True
    obtain r0 rd evs1 where rj: "readjson loads (reader s) evs = (r0, rd, evs1)"
      by (cases "readjson loads (reader s) evs")
    with body True obtain r where r0: "r0 = Some r" by (cases r0) auto
    let ?s1 = "if length evs1 < length evs then run_callbacks (s\<lparr>reader := rd\<rparr>)
               else s\<lparr>reader := rd\<rparr>"
    have rj': "readjson loads (reader s) (evs @ later) = (Some r, rd, evs1 @ later)"
      using rj r0 by (simp add: readjson_append)
    show ?thesis
    proof (cases r)
      case (Inl e)
      with body True rj r0 have "y = (Inl e, ?s1, evs1)" by (simp add: Let_def)
      with True rj' Inl show ?thesis by (subst read_loop.simps) (simp add: Let_def)
    next
      case (Inr reply)
      obtain d s2 where di: "dispatch ?s1 reply = (d, s2)" by (cases "dispatch ?s1 reply")
      show ?thesis
      proof (cases d)
        case (Inl e)
        with body True rj r0 Inr di have "y = (Inl e, s2, evs1)" by (simp add: Let_def)
        with True rj' Inr di Inl show ?thesis by (subst read_loop.simps) (simp add: Let_def)
      next
        case (Inr u)
        with body True rj r0 \<open>r = Inr reply\<close> di have "loop loads s2 evs1 = Some y"
          by (simp add: Let_def)
        from IH [OF this] True rj' \<open>r = Inr reply\<close> di Inr show ?thesis
          by (subst read_loop.simps) (simp add: Let_def)
      qed
    qed
  qed
qed

lemma bytes_1:
  "bytes \<lparr>request_id = 1, request_code = ascii ''return 1/0'', request_reply = JNull,
          completed = Pending, done_callback = False\<rparr> = Inr ''12:1:return 1/0''"
  by (simp add: bytes_def str_int_def str_nat.simps ascii_def utf8_char_def char_of_eq_iff)

lemma bytes_2:
  "bytes \<lparr>request_id = 2, request_code = ascii ''return 7'', request_reply = JNull,
          completed = Pending, done_callback = False\<rparr> = Inr ''10:2:return 7''"
  by (simp add: bytes_def str_int_def str_nat.simps ascii_def utf8_char_def char_of_eq_iff)

lemma connected_eq:
  "connected =
     \<lparr>reader = \<lparr>exception = None, buffer = [], eof = False, limit = 65536\<rparr>,
      writer = [], running = True, reader_task = True, request_count = 0,
      current_requests = [], read_exception = None, shutdown = Some Pending\<rparr>"
  by (simp add: connected_def init_def)

lemma outstanding_eq:
  "outstanding =
     \<lparr>reader = \<lparr>exception = None, buffer = [], eof = False, limit = 65536\<rparr>,
      writer = [''12:0:return 2+2'', ''12:1:return 1/0'', ''10:2:return 7''],
      running = True, reader_task = True, request_count = 3,
      current_requests =
        [(0, \<lparr>request_id = 0, request_code = ascii ''return 2+2'', request_reply = JNull,
               completed = Pending, done_callback = True\<rparr>),
         (1, \<lparr>request_id = 1, request_code = ascii ''return 1/0'', request_reply = JNull,
               completed = Pending, done_callback = True\<rparr>),
         (2, \<lparr>request_id = 2, request_code = ascii ''return 7'', request_reply = JNull,
               completed = Pending, done_callback = True\<rparr>)],
      read_exception = None, shutdown = Some Pending\<rparr>"
proof -
  have 1: "snd (issue_request connected (ascii ''return 2+2'')) =
     \<lparr>reader = \<lparr>exception = None, buffer = [], eof = False, limit = 65536\<rparr>,
      writer = [''12:0:return 2+2''],
      running = True, reader_task = True, request_count = 1,
      current_requests =
        [(0, \<lparr>request_id = 0, request_code = ascii ''return 2+2'', request_reply = JNull,
               completed = Pending, done_callback = True\<rparr>)],
      read_exception = None, shutdown = Some Pending\<rparr>"
    by (simp add: connected_eq issue_request_def Let_def bytes_example)
  have 2: "snd (issue_request (snd (issue_request connected (ascii ''return 2+2'')))
                  (ascii ''return 1/0'')) =
     \<lparr>reader = \<lparr>exception = None, buffer = [], eof = False, limit = 65536\<rparr>,
      writer = [''12:0:return 2+2'', ''12:1:return 1/0''],
      running = True, reader_task = True, request_count = 2,
      current_requests =
        [(0, \<lparr>request_id = 0, request_code = ascii ''return 2+2'', request_reply = JNull,
               completed = Pending, done_callback = True\<rparr>),
         (1, \<lparr>request_id = 1, request_code = ascii ''return 1/0'', request_reply = JNull,
               completed = Pending, done_callback = True\<rparr>)],
      read_exception = None, shutdown = Some Pending\<rparr>"
    unfolding 1 by (simp add: issue_request_def Let_def bytes_1)
  show ?thesis
    unfolding outstanding_def 2 by (simp add: issue_request_def Let_def bytes_2)
qed

lemma abandoned_eq:
  "abandoned =
     \<lparr>reader = \<lparr>exception = None, buffer = [], eof = False, limit = 65536\<rparr>,
      writer = [''12:0:return 2+2'', ''12:1:return 1/0'', ''10:2:return 7''],
      running = True, reader_task = True, request_count = 3,
      current_requests =
        [(0, \<lparr>request_id = 0, request_code = ascii ''return 2+2'', request_reply = JNull,
               completed = Pending, done_callback = True\<rparr>),
         (1, \<lparr>request_id = 1, request_code = ascii ''return 1/0'', request_reply = JNull,
               completed = Cancelled, done_callback = True\<rparr>),
         (2, \<lparr>request_id = 2, request_code = ascii ''return 7'', request_reply = JNull,
               completed = Pending, done_callback = True\<rparr>)],
      read_exception = None, shutdown = Some Pending\<rparr>"
  by (simp add: abandoned_def outstanding_eq)

lemma correlation_example:
  "correlation (JObject ((ascii ''reply_id'', JInt k) # d)) = Some k"
  by (simp add: correlation_def)

text \<open>
  Claim C5. The table's keys are distinct, as those of a \<^verbatim>\<open>dict\<close> are. The replies each
  carry an integer \<^verbatim>\<open>reply_id\<close>, no two the same, and none of them answers a request whose
  future already holds a result. Then the loop body, applied to the replies one after the
  other, raises nothing and changes the table only: a request whose id a reply carries
  gets that reply in its result slot and its future resolved, unless the future had been
  cancelled; every other request is as before; replies that match no entry leave the
  client unchanged. The outcome is the same in whatever order the replies arrive.
\<close>

theorem dispatch_correlation:
  assumes "distinct (map fst (current_requests s))"
    and "\<forall>reply \<in> set rs. correlation reply \<noteq> None"
    and "distinct (map correlation rs)"
    and "\<forall>reply \<in> set rs. \<forall>k r. correlation reply = Some k
           \<longrightarrow> map_of (current_requests s) k = Some r \<longrightarrow> completed r \<noteq> Finished"
  shows "dispatch_all s rs = (Inr (), s\<lparr>current_requests := map (deliver rs) (current_requests s)\<rparr>)
     \<and> (\<forall>reply \<in> set rs. \<forall>k r. correlation reply = Some k
           \<longrightarrow> map_of (current_requests s) k = Some r
           \<longrightarrow> map_of (map (deliver rs) (current_requests s)) k = Some (resolve reply r))
     \<and> (\<forall>k. (\<forall>reply \<in> set rs. correlation reply \<noteq> Some k)
           \<longrightarrow> map_of (map (deliver rs) (current_requests s)) k = map_of (current_requests s) k)
     \<and> ((\<forall>reply \<in> set rs. \<forall>k. correlation reply = Some k
            \<longrightarrow> map_of (current_requests s) k = None)
          \<longrightarrow> dispatch_all s rs = (Inr (), s))
     \<and> (\<forall>rs'. mset rs' = mset rs \<longrightarrow> dispatch_all s rs' = dispatch_all s rs)"
proof (intro conjI ballI allI impI)
  show a: "dispatch_all s rs = (Inr (), s\<lparr>current_requests := map (deliver rs) (current_requests s)\<rparr>)"
    using assms by (rule dispatch_all_deliver)
  show "map_of (map (deliver rs) (current_requests s)) k = Some (resolve reply r)"
    if "reply \<in> set rs" "correlation reply = Some k" "map_of (current_requests s) k = Some r"
    for reply k r
  proof -
    from find_unique [OF assms(3) that(1,2)]
    have "find (\<lambda>y. correlation y = Some k) rs = Some reply" .
    with that(3) show ?thesis by (simp add: map_of_deliver) (simp add: deliver_def)
  qed
  show "map_of (map (deliver rs) (current_requests s)) k = map_of (current_requests s) k"
    if "\<forall>reply \<in> set rs. correlation reply \<noteq> Some k" for k
  proof -
    from that have "find (\<lambda>y. correlation y = Some k) rs = None" by (simp add: find_None_iff)
    then have "snd (deliver rs (k, r)) = r" for r by (simp add: deliver_def)
    then show ?thesis by (cases "map_of (current_requests s) k") (simp_all add: map_of_deliver)
  qed
  show "dispatch_all s rs = (Inr (), s)"
    if un: "\<forall>reply \<in> set rs. \<forall>k. correlation reply = Some k \<longrightarrow> map_of (current_requests s) k = None"
  proof -
    have "\<forall>(k, r) \<in> set (current_requests s). \<forall>reply \<in> set rs. correlation reply \<noteq> Some k"
    proof (intro ballI, clarify)
      fix k r reply
      assume "(k, r) \<in> set (current_requests s)" "reply \<in> set rs" "correlation reply = Some k"
      with un have "map_of (current_requests s) k = None" by blast
      with \<open>(k, r) \<in> set (current_requests s)\<close> show False
        by (metis map_of_eq_None_iff image_eqI fst_conv)
    qed
    from map_deliver_unmatched [OF this] a show ?thesis by simp
  qed
  show "dispatch_all s rs' = dispatch_all s rs" if p: "mset rs' = mset rs" for rs'
  proof -
    have set: "set rs' = set rs" using p by (rule mset_eq_setD)
    have "mset (map correlation rs') = mset (map correlation rs)" using p by simp
    then have d': "distinct (map correlation rs')"
      using assms(3) mset_eq_imp_distinct_iff by blast
    have "dispatch_all s rs' = (Inr (), s\<lparr>current_requests := map (deliver rs') (current_requests s)\<rparr>)"
      using assms(1) assms(2) [folded set] d' assms(4) [folded set] by (rule dispatch_all_deliver)
    with a deliver_permuted [OF assms(3) p] show ?thesis by simp
  qed
qed

theorem dispatch_correlation_witness:
  "dispatch_all abandoned
     [JObject [(ascii ''reply_id'', JInt 2), (ascii ''result'', JInt 7)],
      JObject [(ascii ''reply_id'', JInt 9), (ascii ''result'', JNull)],
      JObject [(ascii ''reply_id'', JInt 1), (ascii ''error'', JString (ascii ''boom''))]]
   = (Inr (),
      abandoned\<lparr>current_requests :=
        [(0, \<lparr>request_id = 0, request_code = ascii ''return 2+2'', request_reply = JNull,
               completed = Pending, done_callback = True\<rparr>),
         (1, \<lparr>request_id = 1, request_code = ascii ''return 1/0'',
               request_reply =
                 JObject [(ascii ''reply_id'', JInt 1), (ascii ''error'', JString (ascii ''boom''))],
               completed = Cancelled, done_callback = True\<rparr>),
         (2, \<lparr>request_id = 2, request_code = ascii ''return 7'',
               request_reply = JObject [(ascii ''reply_id'', JInt 2), (ascii ''result'', JInt 7)],
               completed = Finished, done_callback = True\<rparr>)]\<rparr>)
   \<and> dispatch_all abandoned
     [JObject [(ascii ''reply_id'', JInt 1), (ascii ''error'', JString (ascii ''boom''))],
      JObject [(ascii ''reply_id'', JInt 2), (ascii ''result'', JInt 7)],
      JObject [(ascii ''reply_id'', JInt 9), (ascii ''result'', JNull)]]
   = dispatch_all abandoned
     [JObject [(ascii ''reply_id'', JInt 2), (ascii ''result'', JInt 7)],
      JObject [(ascii ''reply_id'', JInt 9), (ascii ''result'', JNull)],
      JObject [(ascii ''reply_id'', JInt 1), (ascii ''error'', JString (ascii ''boom''))]]"
proof -
  let ?r2 = "JObject [(ascii ''reply_id'', JInt 2), (ascii ''result'', JInt 7)]"
  let ?r9 = "JObject [(ascii ''reply_id'', JInt 9), (ascii ''result'', JNull)]"
  let ?r1 = "JObject [(ascii ''reply_id'', JInt 1), (ascii ''error'', JString (ascii ''boom''))]"
  let ?rs = "[?r2, ?r9, ?r1]"
  have h1: "distinct (map fst (current_requests abandoned))" by (simp add: abandoned_eq)
  have h2: "\<forall>reply \<in> set ?rs. correlation reply \<noteq> None" by (simp add: correlation_example)
  have h3: "distinct (map correlation ?rs)" by (simp add: correlation_example)
  have h4: "\<forall>reply \<in> set ?rs. \<forall>k r. correlation reply = Some k
           \<longrightarrow> map_of (current_requests abandoned) k = Some r \<longrightarrow> completed r \<noteq> Finished"
    by (auto simp: correlation_example abandoned_eq)
  note inst = dispatch_correlation [OF h1 h2 h3 h4]
  from inst have a: "dispatch_all abandoned ?rs
      = (Inr (), abandoned\<lparr>current_requests := map (deliver ?rs) (current_requests abandoned)\<rparr>)"
    by blast
  have b: "map (deliver ?rs) (current_requests abandoned) =
        [(0, \<lparr>request_id = 0, request_code = ascii ''return 2+2'', request_reply = JNull,
               completed = Pending, done_callback = True\<rparr>),
         (1, \<lparr>request_id = 1, request_code = ascii ''return 1/0'', request_reply = ?r1,
               completed = Cancelled, done_callback = True\<rparr>),
         (2, \<lparr>request_id = 2, request_code = ascii ''return 7'', request_reply = ?r2,
               completed = Finished, done_callback = True\<rparr>)]"
    by (simp add: abandoned_eq deliver_def correlation_example resolve_def)
  from inst have "\<forall>rs'. mset rs' = mset ?rs \<longrightarrow> dispatch_all abandoned rs' = dispatch_all abandoned ?rs"
    by blast
  moreover have "mset [?r1, ?r2, ?r9] = mset ?rs" by simp
  ultimately have c: "dispatch_all abandoned [?r1, ?r2, ?r9] = dispatch_all abandoned ?rs"
    by blast
  show ?thesis unfolding c a b by simp
qed

lemma cancel_if: "cancel f = (if f = Pending then Cancelled else f)"
  by (cases f) simp_all

lemma cancel_requests_not_pending:
  "\<forall>(k, r) \<in> set (cancel_requests d). completed r \<noteq> Pending"
  by (auto simp: cancel_requests_def cancel_if split: if_splits)

lemma map_of_cancel_requests:
  "map_of (cancel_requests d) k = map_option (\<lambda>r. r\<lparr>completed := cancel (completed r)\<rparr>) (map_of d k)"
  by (induction d) (auto simp: cancel_requests_def)

lemma read_caught:
  assumes "read_loop loads s evs = Some (Inl e, s1, rest)" and "caught e"
  shows "read loads s evs =
     Some (if shutdown s1 = None then Inl AttributeError else Inl e,
           s1\<lparr>read_exception := Some e,
              current_requests := cancel_requests (current_requests s1),
              reader_task := False,
              shutdown := map_option cancel (shutdown s1)\<rparr>,
           rest)"
proof (cases "shutdown s1")
  case None
  then have "s1\<lparr>read_exception := Some e,
              current_requests := cancel_requests (current_requests s1),
              reader_task := False, shutdown := None\<rparr>
           = s1\<lparr>read_exception := Some e,
              current_requests := cancel_requests (current_requests s1),
              reader_task := False\<rparr>"
    by (cases s1) simp
  with assms None show ?thesis by (simp add: read_def Let_def)
next
  case (Some f)
  with assms show ?thesis by (simp add: read_def Let_def)
qed

lemma readjson_malformed:
  "readjson json_loads \<lparr>exception = None, buffer = ''x'', eof = False, limit = 65536\<rparr> []
     = (Some (Inl AssertionError),
        \<lparr>exception = None, buffer = ''x'', eof = False, limit = 65536\<rparr>, [])"
  by (simp add: readjson_def iteration_def isspace_def)

lemma readjson_closed:
  "readjson json_loads \<lparr>exception = None, buffer = [], eof = False, limit = 65536\<rparr> [Feed_eof]
     = (Some (Inl (IncompleteReadError [])),
        \<lparr>exception = None, buffer = [], eof = True, limit = 65536\<rparr>, [])"
  by (simp add: readjson_def iteration_def isspace_def)

text \<open>
  Claim C2, for the failures that \<^verbatim>\<open>read\<close> catches. The loop ends with an exception
  \<open>e\<close> that is a \<^verbatim>\<open>RuntimeError\<close> or an \<^verbatim>\<open>IncompleteReadError\<close>. Then \<^verbatim>\<open>read\<close>
  records \<open>e\<close> in \<^verbatim>\<open>read_exception\<close>, cancels the future of every request in the table
  that is still pending, so that no pending one is left and none gets a value, and
  raises \<open>e\<close> (or \<^verbatim>\<open>AttributeError\<close> when \<^verbatim>\<open>shutdown\<close> was never assigned). Nothing is
  dispatched after the failure: whatever the transport delivers later, the outcome and
  the client are the same and the later events stay undelivered.
\<close>

theorem read_failure:
  assumes "read_loop loads s evs = Some (Inl e, s1, rest)" and "caught e"
  shows "read loads s evs =
     Some (if shutdown s1 = None then Inl AttributeError else Inl e,
           s1\<lparr>read_exception := Some e,
              current_requests := cancel_requests (current_requests s1),
              reader_task := False,
              shutdown := map_option cancel (shutdown s1)\<rparr>,
           rest)
   \<and> (\<forall>k r. map_of (current_requests s1) k = Some r
         \<longrightarrow> map_of (cancel_requests (current_requests s1)) k
               = Some (r\<lparr>completed := (if completed r = Pending then Cancelled else completed r)\<rparr>))
   \<and> (\<forall>(k, r) \<in> set (cancel_requests (current_requests s1)). completed r \<noteq> Pending)
   \<and> (\<forall>later. read loads s (evs @ later) =
         Some (if shutdown s1 = None then Inl AttributeError else Inl e,
               s1\<lparr>read_exception := Some e,
                  current_requests := cancel_requests (current_requests s1),
                  reader_task := False,
                  shutdown := map_option cancel (shutdown s1)\<rparr>,
               rest @ later))"
proof (intro conjI allI impI)
  show "read loads s evs =
     Some (if shutdown s1 = None then Inl AttributeError else Inl e,
           s1\<lparr>read_exception := Some e,
              current_requests := cancel_requests (current_requests s1),
              reader_task := False,
              shutdown := map_option cancel (shutdown s1)\<rparr>,
           rest)"
    using assms by (rule read_caught)
  show "map_of (cancel_requests (current_requests s1)) k
               = Some (r\<lparr>completed := (if completed r = Pending then Cancelled else completed r)\<rparr>)"
    if "map_of (current_requests s1) k = Some r" for k r
    using that by (simp add: map_of_cancel_requests cancel_if)
  show "\<forall>(k, r) \<in> set (cancel_requests (current_requests s1)). completed r \<noteq> Pending"
    by (rule cancel_requests_not_pending)
  show "read loads s (evs @ later) =
         Some (if shutdown s1 = None then Inl AttributeError else Inl e,
               s1\<lparr>read_exception := Some e,
                  current_requests := cancel_requests (current_requests s1),
                  reader_task := False,
                  shutdown := map_option cancel (shutdown s1)\<rparr>,
               rest @ later)" for later
  proof -
    from read_loop_append [OF assms(1), of later]
    have "read_loop loads s (evs @ later) = Some (Inl e, s1, rest @ later)" by simp
    from read_caught [OF this assms(2)] show ?thesis .
  qed
qed

theorem read_failure_witness:
  "read json_loads outstanding [Feed_eof]
   = Some (Inl (IncompleteReadError []),
           \<lparr>reader = \<lparr>exception = None, buffer = [], eof = True, limit = 65536\<rparr>,
            writer = [''12:0:return 2+2'', ''12:1:return 1/0'', ''10:2:return 7''],
            running = True, reader_task = False, request_count = 3,
            current_requests =
              [(0, \<lparr>request_id = 0, request_code = ascii ''return 2+2'', request_reply = JNull,
                     completed = Cancelled, done_callback = True\<rparr>),
               (1, \<lparr>request_id = 1, request_code = ascii ''return 1/0'', request_reply = JNull,
                     completed = Cancelled, done_callback = True\<rparr>),
               (2, \<lparr>request_id = 2, request_code = ascii ''return 7'', request_reply = JNull,
                     completed = Cancelled, done_callback = True\<rparr>)],
            read_exception = Some (IncompleteReadError []), shutdown = Some Cancelled\<rparr>,
           [])"
proof -
  let ?s1 = "outstanding\<lparr>reader := \<lparr>exception = None, buffer = [], eof = True, limit = 65536\<rparr>\<rparr>"
  have loop: "read_loop json_loads outstanding [Feed_eof] = Some (Inl (IncompleteReadError []), ?s1, [])"
    by (subst read_loop.simps) (simp add: outstanding_eq readjson_closed run_callbacks_def)
  have c: "caught (IncompleteReadError [])" by simp
  from read_failure [OF loop c]
  have "read json_loads outstanding [Feed_eof] =
     Some (if shutdown ?s1 = None then Inl AttributeError else Inl (IncompleteReadError []),
           ?s1\<lparr>read_exception := Some (IncompleteReadError []),
              current_requests := cancel_requests (current_requests ?s1),
              reader_task := False,
              shutdown := map_option cancel (shutdown ?s1)\<rparr>,
           [])"
    by blast
  then show ?thesis by (simp add: outstanding_eq cancel_requests_def)
qed

text \<open>
  A failure that \<^verbatim>\<open>read\<close> does not catch: the stream is malformed, its first byte
  starts neither an object nor an array, and \<^verbatim>\<open>readjson\<close> raises \<^verbatim>\<open>AssertionError\<close>.
  \<^verbatim>\<open>read\<close> records no error and cancels nothing: the three outstanding requests stay
  pending.
\<close>

theorem read_failure_counterexample:
  "read json_loads
     (outstanding\<lparr>reader := \<lparr>exception = None, buffer = ''x'', eof = False, limit = 65536\<rparr>\<rparr>) []
   = Some (Inl AssertionError,
           outstanding\<lparr>reader := \<lparr>exception = None, buffer = ''x'', eof = False, limit = 65536\<rparr>,
                       reader_task := False, shutdown := Some Cancelled\<rparr>,
           [])
   \<and> read_exception
        (outstanding\<lparr>reader := \<lparr>exception = None, buffer = ''x'', eof = False, limit = 65536\<rparr>,
                       reader_task := False, shutdown := Some Cancelled\<rparr>) = None
   \<and> map (\<lambda>(k, r). completed r)
        (current_requests
          (outstanding\<lparr>reader := \<lparr>exception = None, buffer = ''x'', eof = False, limit = 65536\<rparr>,
                         reader_task := False, shutdown := Some Cancelled\<rparr>))
       = [Pending, Pending, Pending]"
proof -
  let ?s = "outstanding\<lparr>reader := \<lparr>exception = None, buffer = ''x'', eof = False, limit = 65536\<rparr>\<rparr>"
  have "read_loop json_loads ?s [] = Some (Inl AssertionError, ?s, [])"
    by (subst read_loop.simps) (simp add: readjson_malformed outstanding_eq)
  then have "read json_loads ?s [] =
      Some (Inl AssertionError, ?s\<lparr>reader_task := False, shutdown := Some Cancelled\<rparr>, [])"
    by (simp add: read_def Let_def outstanding_eq)
  then show ?thesis by (simp add: outstanding_eq)
qed

end
